theory Spec2Isabelle
  imports Complex_Main "HOL-Library.Word"
begin

unbundle bit_operations_syntax

section \<open>Numbers, vectors and boxes\<close>

text \<open>
  The toolpath generator, the STL loader and the G-code exporter of the STL CAM tool
  are embedded below. A JavaScript number is a double; a finite double is modelled by
  the real number it stands for. An arithmetic operation of the code yields the exact
  result rounded to a double. The rounding is a parameter of every function that
  computes with numbers, and a theorem uses a property of it only where it says so.
  A literal such as \<open>0.2\<close> is the rounded value of the decimal. Comparisons,
  \<open>Math.max\<close> and \<open>Math.ceil\<close> are exact on doubles, and so are the loop counters,
  which are integers far below \<open>2^53\<close>. The values \<open>Infinity\<close> and \<open>NaN\<close>, which
  the generator obtains from a division by zero or an overflow, are not represented;
  the theorems on the generator assume the divisors positive. A \<open>THREE.Vector3\<close> is
  a record; the field names carry a prefix because \<open>x\<close>, \<open>y\<close> and \<open>z\<close> are wanted
  as variables.
\<close>

type_synonym rounding = "real \<Rightarrow> real"

definition fadd :: "rounding \<Rightarrow> real \<Rightarrow> real \<Rightarrow> real" where
  "fadd rnd a b = rnd (a + b)"

definition fsub :: "rounding \<Rightarrow> real \<Rightarrow> real \<Rightarrow> real" where
  "fsub rnd a b = rnd (a - b)"

definition fmul :: "rounding \<Rightarrow> real \<Rightarrow> real \<Rightarrow> real" where
  "fmul rnd a b = rnd (a * b)"

definition fdiv :: "rounding \<Rightarrow> real \<Rightarrow> real \<Rightarrow> real" where
  "fdiv rnd a b = rnd (a / b)"

record vector3 =
  vx :: real
  vy :: real
  vz :: real

text \<open>The selection bounds \<open>{min, max}\<close>.\<close>

record box3 =
  box_min :: vector3
  box_max :: vector3

text \<open>\<open>this.params\<close> of the generator, with the defaults of its constructor.\<close>

record params =
  toolDiameter :: real
  stepover :: real
  stepdown :: real
  feedRate :: real
  safeZ :: real

definition default_params :: "rounding \<Rightarrow> params" where
  "default_params rnd =
     \<lparr>toolDiameter = 1, stepover = rnd (4 / 10), stepdown = 1 / 2, feedRate = 100, safeZ = 5\<rparr>"

text \<open>One entry of \<open>this.toolpath\<close>: \<open>{layer, z, points}\<close>.\<close>

record toolpath_layer =
  layer :: nat
  layer_z :: real
  points :: "vector3 list"

section \<open>The ray caster\<close>

text \<open>
  \<open>THREE.Raycaster\<close> belongs to the three.js library, not to the program. One
  \<open>set(origin, direction)\<close> followed by \<open>intersectObject(mesh)\<close> is a function from
  the mesh, the origin and the direction to the list of intersections, which the
  library returns ordered by increasing distance from the origin. The generator is
  parametrised by this function; the mesh type is left open.
\<close>

record intersection =
  distance :: real
  point :: vector3

type_synonym 'm raycaster = "'m \<Rightarrow> vector3 \<Rightarrow> vector3 \<Rightarrow> intersection list"

text \<open>The fields of a \<open>ToolpathGenerator\<close> instance.\<close>

record 'm generator =
  mesh :: 'm
  bounds :: box3
  gparams :: params
  toolpath :: "toolpath_layer list"

section \<open>Surface query\<close>

text \<open>The \<open>for (let hit of intersects)\<close> loop of \<open>findSurfaceAtPoint\<close>.\<close>

fun firstHitWithin :: "real \<Rightarrow> real \<Rightarrow> intersection list \<Rightarrow> real option" where
  "firstHitWithin maxZ minZ [] = None"
| "firstHitWithin maxZ minZ (hit # hits) =
     (if vz (point hit) \<le> maxZ \<and> vz (point hit) \<ge> minZ then Some (vz (point hit))
      else firstHitWithin maxZ minZ hits)"

definition findSurfaceAtPoint ::
  "rounding \<Rightarrow> 'm raycaster \<Rightarrow> 'm generator \<Rightarrow> real \<Rightarrow> real \<Rightarrow> real \<Rightarrow> real option" where
  "findSurfaceAtPoint rnd rc g x y maxZ =
     (let origin = \<lparr>vx = x, vy = y, vz = fadd rnd maxZ 100\<rparr>;
          direction = \<lparr>vx = 0, vy = 0, vz = - 1\<rparr>;
          intersects = rc (mesh g) origin direction
      in if length intersects > 0
         then firstHitWithin maxZ (vz (box_min (bounds g))) intersects
         else None)"

text \<open>\<open>checkNeedsMachining\<close>: the point is inside the selection bounds.\<close>

definition checkNeedsMachining :: "'m generator \<Rightarrow> real \<Rightarrow> real \<Rightarrow> real \<Rightarrow> bool" where
  "checkNeedsMachining g x y z =
     (if x < vx (box_min (bounds g)) \<or> x > vx (box_max (bounds g)) \<or>
         y < vy (box_min (bounds g)) \<or> y > vy (box_max (bounds g)) \<or>
         z < vz (box_min (bounds g)) \<or> z > vz (box_max (bounds g))
      then False else True)"

section \<open>Scanning a row, a layer and the whole volume\<close>

text \<open>
  The body of the loop of \<open>scanLine\<close> at step \<open>i\<close>: the points list after the step.
\<close>

definition scanStepAt ::
  "rounding \<Rightarrow> 'm raycaster \<Rightarrow> 'm generator \<Rightarrow> real \<Rightarrow> real \<Rightarrow> real \<Rightarrow> real \<Rightarrow> real \<Rightarrow>
   nat \<Rightarrow> vector3 list \<Rightarrow> vector3 list" where
  "scanStepAt rnd rc g xStart scanStep y z toolRadius i pts =
     (let x = fadd rnd xStart (fmul rnd (real i) scanStep) in
      case findSurfaceAtPoint rnd rc g x y z of
        None \<Rightarrow> pts
      | Some surfaceZ \<Rightarrow>
          if checkNeedsMachining g x y surfaceZ
          then pts @ [\<lparr>vx = x, vy = y, vz = fadd rnd surfaceZ toolRadius\<rparr>]
          else pts)"

text \<open>\<open>for (let i = 0; i <= numSteps; i++)\<close>, from step \<open>i\<close> on.\<close>

function scanLoop ::
  "rounding \<Rightarrow> 'm raycaster \<Rightarrow> 'm generator \<Rightarrow> real \<Rightarrow> real \<Rightarrow> real \<Rightarrow> real \<Rightarrow> real \<Rightarrow>
   int \<Rightarrow> nat \<Rightarrow> vector3 list \<Rightarrow> vector3 list" where
  "scanLoop rnd rc g xStart scanStep y z toolRadius numSteps i pts =
     (if int i \<le> numSteps
      then scanLoop rnd rc g xStart scanStep y z toolRadius numSteps (i + 1)
             (scanStepAt rnd rc g xStart scanStep y z toolRadius i pts)
      else pts)"
  by pat_completeness auto
termination
  by (relation "measure (\<lambda>(rnd, rc, g, xStart, scanStep, y, z, toolRadius, numSteps, i, pts).
                  nat (numSteps + 1 - int i))") auto

declare scanLoop.simps [simp del]

text \<open>\<open>scanLine\<close>; the step is \<open>toolDiameter * 0.2\<close>.\<close>

definition scanLine ::
  "rounding \<Rightarrow> 'm raycaster \<Rightarrow> 'm generator \<Rightarrow> real \<Rightarrow> real \<Rightarrow> real \<Rightarrow> real \<Rightarrow> real \<Rightarrow>
   vector3 list" where
  "scanLine rnd rc g xStart xEnd y z toolRadius =
     (let scanStep = fmul rnd (toolDiameter (gparams g)) (rnd (2 / 10));
          numSteps = \<lceil>fdiv rnd (fsub rnd xEnd xStart) scanStep\<rceil>
      in scanLoop rnd rc g xStart scanStep y z toolRadius numSteps 0 [])"

text \<open>
  The loop of \<open>generateContourAtZ\<close>, from row \<open>scanIdx\<close> on; the \<open>break\<close> leaves
  the loop with the points collected so far.
\<close>

function contourLoop ::
  "rounding \<Rightarrow> 'm raycaster \<Rightarrow> 'm generator \<Rightarrow> real \<Rightarrow> real \<Rightarrow> real \<Rightarrow> real \<Rightarrow> real \<Rightarrow>
   real \<Rightarrow> real \<Rightarrow> int \<Rightarrow> nat \<Rightarrow> vector3 list \<Rightarrow> vector3 list" where
  "contourLoop rnd rc g xStart xEnd yStart yEnd zLevel stepov toolRadius numScans scanIdx pts =
     (if int scanIdx < numScans
      then (let y = fadd rnd yStart (fmul rnd (real scanIdx) stepov) in
            if y > yEnd then pts
            else (let scanPoints = scanLine rnd rc g xStart xEnd y zLevel toolRadius;
                      scanPoints' = (if scanIdx mod 2 = 1 then rev scanPoints else scanPoints)
                  in contourLoop rnd rc g xStart xEnd yStart yEnd zLevel stepov toolRadius
                       numScans (scanIdx + 1) (pts @ scanPoints')))
      else pts)"
  by pat_completeness auto
termination
  by (relation "measure (\<lambda>(rnd, rc, g, xStart, xEnd, yStart, yEnd, zLevel, stepov, toolRadius,
                  numScans, scanIdx, pts). nat (numScans - int scanIdx))") auto

declare contourLoop.simps [simp del]

definition generateContourAtZ ::
  "rounding \<Rightarrow> 'm raycaster \<Rightarrow> 'm generator \<Rightarrow> real \<Rightarrow> real \<Rightarrow> real \<Rightarrow> vector3 list" where
  "generateContourAtZ rnd rc g zLevel stepov toolRadius =
     (let xStart = vx (box_min (bounds g));
          xEnd = vx (box_max (bounds g));
          yStart = vy (box_min (bounds g));
          yEnd = vy (box_max (bounds g));
          numScans = \<lceil>fdiv rnd (fsub rnd yEnd yStart) stepov\<rceil>
      in contourLoop rnd rc g xStart xEnd yStart yEnd zLevel stepov toolRadius numScans 0 [])"

text \<open>
  The layer loop of \<open>generate\<close>. The progress callback and the \<open>sleep(0)\<close> between
  layers do not touch the generator and are left out. A layer is pushed only when
  its contour has at least one point.
\<close>

function layerLoop ::
  "rounding \<Rightarrow> 'm raycaster \<Rightarrow> real \<Rightarrow> real \<Rightarrow> real \<Rightarrow> real \<Rightarrow> int \<Rightarrow> nat \<Rightarrow>
   'm generator \<Rightarrow> 'm generator" where
  "layerLoop rnd rc stepov toolRadius zStart zEnd numLayers layerIdx g =
     (if int layerIdx < numLayers
      then (let zLevel = fsub rnd zStart (fmul rnd (real layerIdx) (stepdown (gparams g)));
                actualZ = max zLevel zEnd;
                contourPoints = generateContourAtZ rnd rc g actualZ stepov toolRadius;
                g' = (if length contourPoints > 0
                      then g\<lparr>toolpath := toolpath g @
                             [\<lparr>layer = layerIdx, layer_z = actualZ, points = contourPoints\<rparr>]\<rparr>
                      else g)
            in layerLoop rnd rc stepov toolRadius zStart zEnd numLayers (layerIdx + 1) g')
      else g)"
  by pat_completeness auto
termination
  by (relation "measure (\<lambda>(rnd, rc, stepov, toolRadius, zStart, zEnd, numLayers, layerIdx, g).
                  nat (numLayers - int layerIdx))") auto

declare layerLoop.simps [simp del]

text \<open>
  \<open>generate(mesh, bounds)\<close> stores its arguments in the instance, empties
  \<open>this.toolpath\<close> and runs the layer loop; the returned value is \<open>this.toolpath\<close>
  of the resulting instance. \<open>numLayersOf\<close> is \<open>numLayers\<close>, the \<open>Math.ceil\<close> of the
  quotient that the code computes.
\<close>

definition numLayersOf :: "rounding \<Rightarrow> params \<Rightarrow> box3 \<Rightarrow> int" where
  "numLayersOf rnd p b = \<lceil>fdiv rnd (fsub rnd (vz (box_max b)) (vz (box_min b))) (stepdown p)\<rceil>"

definition generate ::
  "rounding \<Rightarrow> 'm raycaster \<Rightarrow> 'm generator \<Rightarrow> 'm \<Rightarrow> box3 \<Rightarrow> 'm generator" where
  "generate rnd rc g0 m b =
     (let g = g0\<lparr>mesh := m, bounds := b, toolpath := []\<rparr>;
          toolRadius = fdiv rnd (toolDiameter (gparams g)) 2;
          stepov = fmul rnd (toolDiameter (gparams g)) (stepover (gparams g));
          zStart = vz (box_max b);
          zEnd = vz (box_min b);
          numLayers = numLayersOf rnd (gparams g) b
      in layerLoop rnd rc stepov toolRadius zStart zEnd numLayers 0 g)"

section \<open>The STL loader: buffers, errors and the platform\<close>

text \<open>
  An \<open>ArrayBuffer\<close> is the list of its bytes. The loader copies numbers without
  computing with them, so its number type \<open>'n\<close> is left open: it holds what
  \<open>DataView.getFloat32\<close> and \<open>parseFloat\<close> return, \<open>NaN\<close> included. A JavaScript
  string is the list of its UTF-16 code units.
\<close>

type_synonym byte = "8 word"

type_synonym js_string = "nat list"

text \<open>
  The exceptions of the loader: \<open>RangeError\<close> from a \<open>DataView\<close> read that leaves
  the buffer, \<open>TypeError\<close> from a property read on \<open>null\<close>.
\<close>

datatype js_error = RangeError | TypeError

text \<open>Sequencing of steps that may throw.\<close>

definition bind_err :: "js_error + 'a \<Rightarrow> ('a \<Rightarrow> js_error + 'b) \<Rightarrow> js_error + 'b" where
  "bind_err r f = (case r of Inl e \<Rightarrow> Inl e | Inr a \<Rightarrow> f a)"

text \<open>
  A \<open>THREE.BufferGeometry\<close>, as far as the loader uses it: the \<open>position\<close> and
  \<open>normal\<close> attributes (three numbers per vertex) and the bounding box, \<open>null\<close> until
  it is computed. The bounding sphere is read nowhere in the program and has no field.
\<close>

record 'n geometry =
  positions :: "'n list"
  normals :: "'n list"
  boundingBox :: "box3 option"

text \<open>
  What the loader takes from the platform and from three.js, none of it code of the
  program: the number with a given IEEE single bit pattern (\<open>getFloat32\<close>), the
  \<open>TextDecoder\<close>, \<open>parseFloat\<close>, the rounding of a number stored into a
  \<open>Float32Array\<close>, and the three methods of \<open>BufferGeometry\<close> that \<open>load\<close> calls.
\<close>

record 'n platform =
  float32 :: "32 word \<Rightarrow> 'n"
  textDecode :: "byte list \<Rightarrow> js_string"
  parseFloat :: "js_string \<Rightarrow> 'n"
  toFloat32 :: "'n \<Rightarrow> 'n"
  computeVertexNormals :: "'n geometry \<Rightarrow> 'n geometry"
  computeBoundingBox :: "'n geometry \<Rightarrow> 'n geometry"
  computeBoundingSphere :: "'n geometry \<Rightarrow> 'n geometry"

subsection \<open>DataView\<close>

text \<open>The 32-bit value of four bytes in little-endian order.\<close>

definition le32 :: "byte \<Rightarrow> byte \<Rightarrow> byte \<Rightarrow> byte \<Rightarrow> 32 word" where
  "le32 b0 b1 b2 b3 =
     ucast b0 OR push_bit 8 (ucast b1) OR push_bit 16 (ucast b2) OR push_bit 24 (ucast b3)"

definition word32At :: "byte list \<Rightarrow> nat \<Rightarrow> 32 word" where
  "word32At buffer off =
     le32 (buffer ! off) (buffer ! (off + 1)) (buffer ! (off + 2)) (buffer ! (off + 3))"

text \<open>
  \<open>view.getUint32(off, true)\<close> and \<open>view.getFloat32(off, true)\<close>: a read of four bytes
  that do not all lie in the buffer throws a \<open>RangeError\<close>. The unsigned value is a
  JavaScript number, below \<open>2^32\<close>.
\<close>

definition getUint32 :: "byte list \<Rightarrow> nat \<Rightarrow> js_error + nat" where
  "getUint32 buffer off =
     (if off + 4 \<le> length buffer then Inr (unat (word32At buffer off)) else Inl RangeError)"

definition getFloat32 :: "'n platform \<Rightarrow> byte list \<Rightarrow> nat \<Rightarrow> js_error + 'n" where
  "getFloat32 pf buffer off =
     (if off + 4 \<le> length buffer then Inr (float32 pf (word32At buffer off))
      else Inl RangeError)"

subsection \<open>Format detection\<close>

text \<open>
  \<open>isBinarySTL\<close>. The product \<open>numTriangles * 50\<close> is below \<open>2^38\<close>, far inside the
  range where JavaScript numbers are exact integers, so it is the product of naturals.
\<close>

definition isBinarySTL :: "byte list \<Rightarrow> js_error + bool" where
  "isBinarySTL buffer =
     bind_err (getUint32 buffer 80) (\<lambda>numTriangles.
       let expectedSize = 84 + numTriangles * 50
       in Inr (length buffer = expectedSize))"

subsection \<open>Binary parse\<close>

text \<open>
  The loop of \<open>parseBinary\<close> from triangle \<open>i\<close> on. The two \<open>Float32Array\<close>s are
  allocated beforehand, filled with zeros, and written by index; a write outside a
  typed array is ignored, as \<open>list_update\<close> ignores it.
\<close>

function binaryLoop ::
  "('n::zero) platform \<Rightarrow> byte list \<Rightarrow> nat \<Rightarrow> nat \<Rightarrow> nat \<Rightarrow> 'n list \<Rightarrow> 'n list \<Rightarrow>
   js_error + ('n list \<times> 'n list)" where
  "binaryLoop pf buffer numTriangles i offset pos nrm =
     (if i < numTriangles
      then (let normalOffset = offset;
                v1Offset = offset + 12;
                v2Offset = offset + 24;
                v3Offset = offset + 36
            in bind_err (getFloat32 pf buffer normalOffset) (\<lambda>nx.
               bind_err (getFloat32 pf buffer (normalOffset + 4)) (\<lambda>ny.
               bind_err (getFloat32 pf buffer (normalOffset + 8)) (\<lambda>nz.
               bind_err (getFloat32 pf buffer v1Offset) (\<lambda>v1x.
               bind_err (getFloat32 pf buffer (v1Offset + 4)) (\<lambda>v1y.
               bind_err (getFloat32 pf buffer (v1Offset + 8)) (\<lambda>v1z.
               bind_err (getFloat32 pf buffer v2Offset) (\<lambda>v2x.
               bind_err (getFloat32 pf buffer (v2Offset + 4)) (\<lambda>v2y.
               bind_err (getFloat32 pf buffer (v2Offset + 8)) (\<lambda>v2z.
               bind_err (getFloat32 pf buffer v3Offset) (\<lambda>v3x.
               bind_err (getFloat32 pf buffer (v3Offset + 4)) (\<lambda>v3y.
               bind_err (getFloat32 pf buffer (v3Offset + 8)) (\<lambda>v3z.
                 let posIndex = i * 9;
                     pos' = pos[posIndex := v1x, posIndex + 1 := v1y, posIndex + 2 := v1z,
                                posIndex + 3 := v2x, posIndex + 4 := v2y, posIndex + 5 := v2z,
                                posIndex + 6 := v3x, posIndex + 7 := v3y, posIndex + 8 := v3z];
                     nrm' = nrm[posIndex := nx, posIndex + 1 := ny, posIndex + 2 := nz,
                                posIndex + 3 := nx, posIndex + 4 := ny, posIndex + 5 := nz,
                                posIndex + 6 := nx, posIndex + 7 := ny, posIndex + 8 := nz]
                 in binaryLoop pf buffer numTriangles (i + 1) (offset + 50) pos' nrm')))))))))))))
      else Inr (pos, nrm))"
  by pat_completeness auto
termination
  by (relation "measure (\<lambda>(pf, buffer, numTriangles, i, offset, pos, nrm). numTriangles - i)")
     auto

declare binaryLoop.simps [simp del]

definition parseBinary :: "('n::zero) platform \<Rightarrow> byte list \<Rightarrow> js_error + 'n geometry" where
  "parseBinary pf buffer =
     bind_err (getUint32 buffer 80) (\<lambda>numTriangles.
       let pos = replicate (numTriangles * 9) 0;
           nrm = replicate (numTriangles * 9) 0;
           offset = 84
       in bind_err (binaryLoop pf buffer numTriangles 0 offset pos nrm) (\<lambda>(pos', nrm').
            Inr \<lparr>positions = pos', normals = nrm', boundingBox = None\<rparr>))"

subsection \<open>Textual parse\<close>

text \<open>
  The code units that \<open>trim\<close> strips and that the class \<open>\s\<close> of a regular
  expression matches: the white space and the line terminators of ECMAScript.
\<close>

definition isSpace :: "nat \<Rightarrow> bool" where
  "isSpace c =
     (c \<in> {9, 10, 11, 12, 13, 32, 160, 5760, 8232, 8233, 8239, 8287, 12288, 65279} \<or>
      (8192 \<le> c \<and> c \<le> 8202))"

text \<open>A string literal of the source as code units.\<close>

definition lit :: "string \<Rightarrow> js_string" where
  "lit s = map of_char s"

text \<open>\<open>text.split('\n')\<close>: the pieces between line feeds, at least one.\<close>

fun splitLines :: "js_string \<Rightarrow> js_string list" where
  "splitLines [] = [[]]"
| "splitLines (c # cs) =
     (if c = 10 then [] # splitLines cs
      else (case splitLines cs of [] \<Rightarrow> [[c]] | l # ls \<Rightarrow> (c # l) # ls))"

definition trim :: "js_string \<Rightarrow> js_string" where
  "trim s = rev (dropWhile isSpace (rev (dropWhile isSpace s)))"

definition startsWith :: "js_string \<Rightarrow> js_string \<Rightarrow> bool" where
  "startsWith s p = (take (length p) s = p)"

text \<open>
  \<open>line.split(/\s+/)\<close>: the pieces between maximal runs of white space; a string that
  begins or ends with white space has an empty first or last piece. The first argument
  collects the current piece, reversed.
\<close>

function splitSpaces :: "js_string \<Rightarrow> js_string \<Rightarrow> js_string list" where
  "splitSpaces cur [] = [rev cur]"
| "splitSpaces cur (c # cs) =
     (if isSpace c then rev cur # splitSpaces [] (dropWhile isSpace cs)
      else splitSpaces (c # cur) cs)"
  by pat_completeness auto
termination
  by (relation "measure (\<lambda>(cur, s). length s)")
     (auto simp: le_imp_less_Suc length_dropWhile_le)

text \<open>
  \<open>parseFloat(parts[k])\<close>: an index outside the array reads \<open>undefined\<close>, which
  \<open>parseFloat\<close> turns into the string \<open>undefined\<close> before it parses.
\<close>

definition parseFloatAt :: "'n platform \<Rightarrow> js_string list \<Rightarrow> nat \<Rightarrow> 'n" where
  "parseFloatAt pf parts k =
     parseFloat pf (if k < length parts then parts ! k else lit ''undefined'')"

text \<open>
  The loop of \<open>parseASCII\<close> over the lines, with \<open>positions\<close>, \<open>normals\<close> and
  \<open>currentNormal\<close> as state.
\<close>

fun asciiLoop ::
  "'n platform \<Rightarrow> js_string list \<Rightarrow> 'n list \<Rightarrow> 'n list \<Rightarrow> 'n list option \<Rightarrow>
   'n list \<times> 'n list" where
  "asciiLoop pf [] pos nrm currentNormal = (pos, nrm)"
| "asciiLoop pf (line0 # lines) pos nrm currentNormal =
     (let line = trim line0 in
      if startsWith line (lit ''facet normal'')
      then (let parts = splitSpaces [] line
            in asciiLoop pf lines pos nrm
                 (Some [parseFloatAt pf parts 2, parseFloatAt pf parts 3, parseFloatAt pf parts 4]))
      else if startsWith line (lit ''vertex'')
      then (let parts = splitSpaces [] line;
                pos' = pos @ [parseFloatAt pf parts 1, parseFloatAt pf parts 2,
                              parseFloatAt pf parts 3];
                nrm' = (case currentNormal of None \<Rightarrow> nrm | Some n \<Rightarrow> nrm @ n)
            in asciiLoop pf lines pos' nrm' currentNormal)
      else asciiLoop pf lines pos nrm currentNormal)"

text \<open>
  \<open>parseASCII\<close>. A \<open>Float32BufferAttribute\<close> stores the numbers of the array in a
  \<open>Float32Array\<close>, each rounded to single precision.
\<close>

definition parseASCII :: "'n platform \<Rightarrow> byte list \<Rightarrow> 'n geometry" where
  "parseASCII pf buffer =
     (let text = textDecode pf buffer;
          lines = splitLines text;
          (pos, nrm) = asciiLoop pf lines [] [] None
      in \<lparr>positions = map (toFloat32 pf) pos, normals = map (toFloat32 pf) nrm,
          boundingBox = None\<rparr>)"

subsection \<open>Load and statistics\<close>

text \<open>
  \<open>load\<close>: the result is the value it returns, which is also the new
  \<open>this.geometry\<close>; when \<open>isBinarySTL\<close> throws, nothing is returned.
\<close>

definition postLoad :: "'n platform \<Rightarrow> 'n geometry \<Rightarrow> 'n geometry" where
  "postLoad pf g = computeBoundingSphere pf (computeBoundingBox pf (computeVertexNormals pf g))"

definition load :: "('n::zero) platform \<Rightarrow> byte list \<Rightarrow> js_error + 'n geometry" where
  "load pf buffer =
     bind_err (isBinarySTL buffer) (\<lambda>isBinary.
       bind_err (if isBinary then parseBinary pf buffer else Inr (parseASCII pf buffer))
         (\<lambda>g. Inr (postLoad pf g)))"

text \<open>
  \<open>getStats\<close> on \<open>this.geometry\<close>. The \<open>count\<close> of a buffer attribute of three.js is
  the length of its array over its item size 3. Reading \<open>bbox.max\<close> of a geometry whose
  bounding box is still \<open>null\<close> throws a \<open>TypeError\<close>. The differences, sums and
  quotients are operations on doubles.
\<close>

record stats =
  triangleCount :: real
  vertexCount :: real
  dimensions :: vector3
  center :: vector3
  stats_min :: vector3
  stats_max :: vector3

definition attributeCount :: "rounding \<Rightarrow> 'n list \<Rightarrow> real" where
  "attributeCount rnd array = fdiv rnd (real (length array)) 3"

definition getStats :: "rounding \<Rightarrow> 'n geometry option \<Rightarrow> js_error + stats option" where
  "getStats rnd this_geometry =
     (case this_geometry of
        None \<Rightarrow> Inr None
      | Some g \<Rightarrow>
          (case boundingBox g of
             None \<Rightarrow> Inl TypeError
           | Some bbox \<Rightarrow>
               Inr (Some
                 \<lparr>triangleCount = fdiv rnd (attributeCount rnd (positions g)) 3,
                  vertexCount = attributeCount rnd (positions g),
                  dimensions = \<lparr>vx = fsub rnd (vx (box_max bbox)) (vx (box_min bbox)),
                                vy = fsub rnd (vy (box_max bbox)) (vy (box_min bbox)),
                                vz = fsub rnd (vz (box_max bbox)) (vz (box_min bbox))\<rparr>,
                  center = \<lparr>vx = fdiv rnd (fadd rnd (vx (box_max bbox)) (vx (box_min bbox))) 2,
                            vy = fdiv rnd (fadd rnd (vy (box_max bbox)) (vy (box_min bbox))) 2,
                            vz = fdiv rnd (fadd rnd (vz (box_max bbox)) (vz (box_min bbox))) 2\<rparr>,
                  stats_min = box_min bbox,
                  stats_max = box_max bbox\<rparr>)))"

section \<open>The G-code exporter\<close>










section \<open>Concrete inputs\<close>

text \<open>
  A stand-in for the library's ray caster on the simplest meshes: a mesh is a stack of
  unbounded horizontal planes, given by their heights from the top one down, and a ray
  pointing down meets every plane at or below its origin, nearest first. It supplies
  the ray-caster parameter wherever a statement is evaluated at a concrete input.
\<close>

definition planeRaycaster :: "real list raycaster" where
  "planeRaycaster heights origin direction =
     map (\<lambda>h. \<lparr>distance = vz origin - h, point = \<lparr>vx = vx origin, vy = vy origin, vz = h\<rparr>\<rparr>)
       (filter (\<lambda>h. h \<le> vz origin) heights)"

text \<open>
  Concrete inputs are evaluated with the rounding that leaves every result as it is:
  the numbers written are the decimals, of which the code holds the nearest doubles,
  and on these inputs the code's comparisons and ceilings come out the same.
\<close>

definition noRounding :: rounding where
  "noRounding x = x"

definition exampleParams :: params where
  "exampleParams =
     \<lparr>toolDiameter = 1, stepover = 1, stepdown = 1 / 2, feedRate = 100, safeZ = 5\<rparr>"

definition exampleBounds :: box3 where
  "exampleBounds =
     \<lparr>box_min = \<lparr>vx = 0, vy = 0, vz = 0\<rparr>, box_max = \<lparr>vx = 1 / 5, vy = 2, vz = 1\<rparr>\<rparr>"

definition exampleGenerator :: "real list generator" where
  "exampleGenerator =
     \<lparr>mesh = [], bounds = exampleBounds, gparams = exampleParams, toolpath = []\<rparr>"

section \<open>Notions used in the statements\<close>

text \<open>
  The parameters are valid when the tool diameter, the stepover fraction and the
  stepdown are positive and so are the two divisors that the generator computes from
  them, the row spacing \<open>toolDiameter * stepover\<close> and the scan step
  \<open>toolDiameter * 0.2\<close>.
\<close>

definition valid_params :: "rounding \<Rightarrow> params \<Rightarrow> bool" where
  "valid_params rnd p =
     (0 < toolDiameter p \<and> 0 < stepover p \<and> 0 < stepdown p \<and>
      0 < fmul rnd (toolDiameter p) (stepover p) \<and>
      0 < fmul rnd (toolDiameter p) (rnd (2 / 10)))"

text \<open>
  A rounding is monotone when it keeps the order of the exact results and leaves 0 as
  it is, as rounding to the nearest double does.
\<close>

definition monotone_rounding :: "rounding \<Rightarrow> bool" where
  "monotone_rounding rnd = ((\<forall>a b. a \<le> b \<longrightarrow> rnd a \<le> rnd b) \<and> rnd 0 = 0)"

text \<open>
  The instance during a run of \<open>generate\<close> for parameters \<open>p\<close>, mesh \<open>m\<close> and bounds
  \<open>b\<close>; the tool radius and the row spacing of the run; the target plane of layer
  iteration \<open>k\<close> (\<open>actualZ\<close>) and the contour that the iteration computes.
\<close>

definition runInstance :: "params \<Rightarrow> 'm \<Rightarrow> box3 \<Rightarrow> 'm generator" where
  "runInstance p m b = \<lparr>mesh = m, bounds = b, gparams = p, toolpath = []\<rparr>"

definition toolRadiusOf :: "rounding \<Rightarrow> params \<Rightarrow> real" where
  "toolRadiusOf rnd p = fdiv rnd (toolDiameter p) 2"

definition rowSpacing :: "rounding \<Rightarrow> params \<Rightarrow> real" where
  "rowSpacing rnd p = fmul rnd (toolDiameter p) (stepover p)"

definition layerPlane :: "rounding \<Rightarrow> params \<Rightarrow> box3 \<Rightarrow> nat \<Rightarrow> real" where
  "layerPlane rnd p b k =
     max (fsub rnd (vz (box_max b)) (fmul rnd (real k) (stepdown p))) (vz (box_min b))"

definition layerContour ::
  "rounding \<Rightarrow> 'm raycaster \<Rightarrow> params \<Rightarrow> 'm \<Rightarrow> box3 \<Rightarrow> nat \<Rightarrow> vector3 list" where
  "layerContour rnd rc p m b k =
     generateContourAtZ rnd rc (runInstance p m b) (layerPlane rnd p b k)
       (rowSpacing rnd p) (toolRadiusOf rnd p)"

text \<open>
  The Y position of the row with Y-step index \<open>j\<close>, the row that layer iteration \<open>k\<close>
  scans there, as \<open>scanLine\<close> returns it, and the number of rows of a layer: the
  Y-step indices below \<open>numScans\<close> that come before the first one whose Y position is
  beyond the selection, where the loop breaks.
\<close>

definition rowY :: "rounding \<Rightarrow> params \<Rightarrow> box3 \<Rightarrow> nat \<Rightarrow> real" where
  "rowY rnd p b j = fadd rnd (vy (box_min b)) (fmul rnd (real j) (rowSpacing rnd p))"

definition layerRow ::
  "rounding \<Rightarrow> 'm raycaster \<Rightarrow> params \<Rightarrow> 'm \<Rightarrow> box3 \<Rightarrow> nat \<Rightarrow> nat \<Rightarrow> vector3 list" where
  "layerRow rnd rc p m b k j =
     scanLine rnd rc (runInstance p m b) (vx (box_min b)) (vx (box_max b)) (rowY rnd p b j)
       (layerPlane rnd p b k) (toolRadiusOf rnd p)"

definition layerRows :: "rounding \<Rightarrow> params \<Rightarrow> box3 \<Rightarrow> nat" where
  "layerRows rnd p b =
     length (takeWhile (\<lambda>j. \<not> rowY rnd p b j > vy (box_max b))
       [0..<nat \<lceil>fdiv rnd (fsub rnd (vy (box_max b)) (vy (box_min b))) (rowSpacing rnd p)\<rceil>])"

text \<open>The triangle count that a buffer of at least 84 bytes declares at offset 80.\<close>

definition declaredCount :: "byte list \<Rightarrow> nat" where
  "declaredCount buffer = unat (word32At buffer 80)"

text \<open>
  The twelve numbers of record \<open>k\<close> of a fixed-record stream, as \<open>parseBinary\<close> reads
  them: the normal, then the three vertices.
\<close>

definition recordFloat :: "'n platform \<Rightarrow> byte list \<Rightarrow> nat \<Rightarrow> nat \<Rightarrow> 'n" where
  "recordFloat pf buffer k j = float32 pf (word32At buffer (84 + 50 * k + 4 * j))"

definition recordVertices :: "'n platform \<Rightarrow> byte list \<Rightarrow> nat \<Rightarrow> 'n list" where
  "recordVertices pf buffer k = map (recordFloat pf buffer k) [3, 4, 5, 6, 7, 8, 9, 10, 11]"

definition recordNormals :: "'n platform \<Rightarrow> byte list \<Rightarrow> nat \<Rightarrow> 'n list" where
  "recordNormals pf buffer k = map (recordFloat pf buffer k) [0, 1, 2, 0, 1, 2, 0, 1, 2]"

section \<open>Building a fixed-record stream\<close>

text \<open>
  The other direction of the binary format, used to state the round trip: a facet is
  given by the bit patterns of its twelve single-precision numbers and its two
  attribute bytes, and a stream is the header, the count and the 50-byte records.
\<close>

definition bytesOf32 :: "32 word \<Rightarrow> byte list" where
  "bytesOf32 w = [ucast w, ucast (drop_bit 8 w), ucast (drop_bit 16 w), ucast (drop_bit 24 w)]"

record facet =
  normalBits :: "32 word list"
  vertexBits :: "32 word list"
  attributeBytes :: "byte list"

definition wellFormedFacet :: "facet \<Rightarrow> bool" where
  "wellFormedFacet f =
     (length (normalBits f) = 3 \<and> length (vertexBits f) = 9 \<and> length (attributeBytes f) = 2)"

definition encodeFacet :: "facet \<Rightarrow> byte list" where
  "encodeFacet f = concat (map bytesOf32 (normalBits f @ vertexBits f)) @ attributeBytes f"

definition encodeSTL :: "byte list \<Rightarrow> facet list \<Rightarrow> byte list" where
  "encodeSTL header facets =
     header @ bytesOf32 (of_nat (length facets)) @ concat (map encodeFacet facets)"

section \<open>Stand-ins for the platform\<close>

text \<open>
  Concrete functions for the parameters of the loader, used where a statement is
  evaluated at a concrete input. \<open>ieeeSingle\<close> is the value of a finite IEEE single
  (the patterns with exponent 255, the infinities and \<open>NaN\<close>, have no real value and
  are not meant). \<open>asciiDecode\<close> is the \<open>TextDecoder\<close> on bytes below 128.
  \<open>noParseFloat\<close> fills the place of \<open>parseFloat\<close>; no run below reaches it.
\<close>

definition ieeeSingle :: "32 word \<Rightarrow> real" where
  "ieeeSingle w =
     (let e = unat (drop_bit 23 w AND 255);
          m = unat (w AND 8388607);
          mag = (if e = 0 then real m / 2 ^ 149
                 else if e < 150 then (8388608 + real m) / 2 ^ (150 - e)
                 else (8388608 + real m) * 2 ^ (e - 150))
      in if bit w 31 then - mag else mag)"

definition asciiDecode :: "byte list \<Rightarrow> js_string" where
  "asciiDecode bs = map unat bs"

definition noParseFloat :: "js_string \<Rightarrow> real" where
  "noParseFloat s = 0"

text \<open>
  \<open>computeVertexNormals\<close> of three.js on a geometry without index: the normals are
  computed anew from the positions. Each triangle \<open>A, B, C\<close> gets the cross product
  \<open>(C - B) \<times> (A - B)\<close>, divided by its length (by 1 when the length is 0), at all three
  of its vertices. Numbers left over after the last whole triangle are not covered.
\<close>

function faceNormals :: "real list \<Rightarrow> real list" where
  "faceNormals ps =
     (if length ps < 9 then []
      else (let ax = ps ! 0; ay = ps ! 1; az = ps ! 2;
                bx = ps ! 3; by = ps ! 4; bz = ps ! 5;
                cx = ps ! 6; cy = ps ! 7; cz = ps ! 8;
                cbx = cx - bx; cby = cy - by; cbz = cz - bz;
                abx = ax - bx; aby = ay - by; abz = az - bz;
                nx = cby * abz - cbz * aby;
                ny = cbz * abx - cbx * abz;
                nz = cbx * aby - cby * abx;
                len = sqrt (nx * nx + ny * ny + nz * nz);
                l = (if len = 0 then 1 else len)
            in [nx / l, ny / l, nz / l, nx / l, ny / l, nz / l, nx / l, ny / l, nz / l] @
               faceNormals (drop 9 ps)))"
  by pat_completeness auto
termination
  by (relation "measure length") auto

declare faceNormals.simps [simp del]

definition threeVertexNormals :: "real geometry \<Rightarrow> real geometry" where
  "threeVertexNormals g = g\<lparr>normals := faceNormals (positions g)\<rparr>"

text \<open>
  Modelled from the spec: \<open>computeBoundingBox\<close> of three.js, which is not code of the
  program. The spec has the bounding box as the componentwise minimum and maximum over
  all vertices; the box of a geometry without vertices is not covered.
\<close>

definition coordinates :: "nat \<Rightarrow> real list \<Rightarrow> real list" where
  "coordinates k ps = map (\<lambda>i. ps ! (3 * i + k)) [0..<length ps div 3]"

definition boundsOf :: "real list \<Rightarrow> box3" where
  "boundsOf ps =
     \<lparr>box_min = \<lparr>vx = Min (set (coordinates 0 ps)), vy = Min (set (coordinates 1 ps)),
                  vz = Min (set (coordinates 2 ps))\<rparr>,
      box_max = \<lparr>vx = Max (set (coordinates 0 ps)), vy = Max (set (coordinates 1 ps)),
                  vz = Max (set (coordinates 2 ps))\<rparr>\<rparr>"

definition threeBoundingBox :: "real geometry \<Rightarrow> real geometry" where
  "threeBoundingBox g = g\<lparr>boundingBox := Some (boundsOf (positions g))\<rparr>"

definition examplePlatform :: "real platform" where
  "examplePlatform =
     \<lparr>float32 = ieeeSingle, textDecode = asciiDecode, parseFloat = noParseFloat,
      toFloat32 = (\<lambda>v. v), computeVertexNormals = threeVertexNormals,
      computeBoundingBox = threeBoundingBox, computeBoundingSphere = (\<lambda>g. g)\<rparr>"

text \<open>
  What the statements on the statistics assume of the three methods of three.js: the
  computation of the normals leaves the positions alone, the bounding box of a geometry
  with a vertex is the componentwise minimum and maximum of its positions, and neither
  it nor the bounding sphere changes the two attributes.
\<close>

definition three_contract :: "real platform \<Rightarrow> bool" where
  "three_contract pf =
     ((\<forall>g. positions (computeVertexNormals pf g) = positions g) \<and>
      (\<forall>g. positions (computeBoundingBox pf g) = positions g \<and>
           normals (computeBoundingBox pf g) = normals g \<and>
           (positions g \<noteq> [] \<longrightarrow>
              boundingBox (computeBoundingBox pf g) = Some (boundsOf (positions g)))) \<and>
      (\<forall>g. positions (computeBoundingSphere pf g) = positions g \<and>
           normals (computeBoundingSphere pf g) = normals g \<and>
           boundingBox (computeBoundingSphere pf g) = boundingBox g))"

text \<open>
  A rounding is exact on counts when it leaves the natural numbers below \<open>2^53\<close> as
  they are; they are doubles.
\<close>

definition exact_on_counts :: "rounding \<Rightarrow> bool" where
  "exact_on_counts rnd = (\<forall>k::nat. k < 2 ^ 53 \<longrightarrow> rnd (real k) = real k)"

text \<open>
  One facet with the normal \<open>(0, 0, 0)\<close>, as many exporters write it, and the vertices
  \<open>(0, 0, 0)\<close>, \<open>(1, 0, 0)\<close>, \<open>(0, 1, 0)\<close>; \<open>0x3F800000\<close> is the single 1.0. A stream
  of 84 bytes that declares one triangle, and a short textual stream.
\<close>

definition exampleFacet :: facet where
  "exampleFacet =
     \<lparr>normalBits = [0, 0, 0],
      vertexBits = [0, 0, 0, 0x3F800000, 0, 0, 0, 0x3F800000, 0],
      attributeBytes = [0, 0]\<rparr>"

definition exampleHeader :: "byte list" where
  "exampleHeader = replicate 80 0"

definition truncatedStream :: "byte list" where
  "truncatedStream = replicate 80 0 @ [1, 0, 0, 0]"

definition bytesOfString :: "string \<Rightarrow> byte list" where
  "bytesOfString s = map (\<lambda>c. of_nat (of_char c)) s"

definition shortTextStream :: "byte list" where
  "shortTextStream = bytesOfString ''solid empty''"

text \<open>
  The numbers that a list of facets stands for: the nine coordinates of each facet in
  order, and the normal of each facet three times.
\<close>

definition facetPositions :: "'n platform \<Rightarrow> facet list \<Rightarrow> 'n list" where
  "facetPositions pf facets = concat (map (\<lambda>f. map (float32 pf) (vertexBits f)) facets)"

definition facetNormals :: "'n platform \<Rightarrow> facet list \<Rightarrow> 'n list" where
  "facetNormals pf facets =
     concat (map (\<lambda>f. map (float32 pf) (normalBits f @ normalBits f @ normalBits f)) facets)"





section \<open>Stand-ins for the text platform\<close>







section \<open>Properties of the surface query\<close>

lemma firstHitWithin_None:
  "(firstHitWithin maxZ minZ hits = None) =
   (\<forall>h \<in> set hits. \<not> (minZ \<le> vz (point h) \<and> vz (point h) \<le> maxZ))"
  by (induction hits) auto

lemma firstHitWithin_Some:
  "(firstHitWithin maxZ minZ hits = Some s) =
   (\<exists>i < length hits. s = vz (point (hits ! i)) \<and> minZ \<le> s \<and> s \<le> maxZ \<and>
      (\<forall>j < i. \<not> (minZ \<le> vz (point (hits ! j)) \<and> vz (point (hits ! j)) \<le> maxZ)))"
proof (induction hits)
  case Nil
  show ?case by simp
next
  case (Cons h hits)
  show ?case
  proof (cases "vz (point h) \<le> maxZ \<and> vz (point h) \<ge> minZ")
    case True
    have "(\<exists>i < length (h # hits). s = vz (point ((h # hits) ! i)) \<and> minZ \<le> s \<and> s \<le> maxZ \<and>
            (\<forall>j < i. \<not> (minZ \<le> vz (point ((h # hits) ! j)) \<and>
                         vz (point ((h # hits) ! j)) \<le> maxZ))) = (s = vz (point h))"
    proof
      assume "\<exists>i < length (h # hits). s = vz (point ((h # hits) ! i)) \<and> minZ \<le> s \<and> s \<le> maxZ \<and>
            (\<forall>j < i. \<not> (minZ \<le> vz (point ((h # hits) ! j)) \<and>
                         vz (point ((h # hits) ! j)) \<le> maxZ))"
      then obtain i where i: "s = vz (point ((h # hits) ! i))"
        "\<forall>j < i. \<not> (minZ \<le> vz (point ((h # hits) ! j)) \<and> vz (point ((h # hits) ! j)) \<le> maxZ)"
        by blast
      have "i = 0"
      proof (rule ccontr)
        assume "i \<noteq> 0"
        then have "0 < i" by simp
        with i(2) True show False by force
      qed
      with i(1) show "s = vz (point h)" by simp
    next
      assume "s = vz (point h)"
      with True show "\<exists>i < length (h # hits). s = vz (point ((h # hits) ! i)) \<and> minZ \<le> s \<and>
            s \<le> maxZ \<and> (\<forall>j < i. \<not> (minZ \<le> vz (point ((h # hits) ! j)) \<and>
                         vz (point ((h # hits) ! j)) \<le> maxZ))"
        by (intro exI [of _ 0]) simp
    qed
    with True show ?thesis by auto
  next
    case False
    have "(\<exists>i < length (h # hits). s = vz (point ((h # hits) ! i)) \<and> minZ \<le> s \<and> s \<le> maxZ \<and>
            (\<forall>j < i. \<not> (minZ \<le> vz (point ((h # hits) ! j)) \<and>
                         vz (point ((h # hits) ! j)) \<le> maxZ))) =
          (\<exists>i < length hits. s = vz (point (hits ! i)) \<and> minZ \<le> s \<and> s \<le> maxZ \<and>
            (\<forall>j < i. \<not> (minZ \<le> vz (point (hits ! j)) \<and> vz (point (hits ! j)) \<le> maxZ)))"
      (is "?L = ?R")
    proof
      assume ?L
      then obtain i where i: "i < length (h # hits)" "s = vz (point ((h # hits) ! i))"
        "minZ \<le> s" "s \<le> maxZ"
        "\<forall>j < i. \<not> (minZ \<le> vz (point ((h # hits) ! j)) \<and> vz (point ((h # hits) ! j)) \<le> maxZ)"
        by blast
      from i False obtain k where k: "i = Suc k" by (cases i) auto
      have "\<forall>j < k. \<not> (minZ \<le> vz (point (hits ! j)) \<and> vz (point (hits ! j)) \<le> maxZ)"
      proof (intro allI impI)
        fix j assume "j < k"
        then have "Suc j < i" using k by simp
        with i(5) have "\<not> (minZ \<le> vz (point ((h # hits) ! Suc j)) \<and>
                          vz (point ((h # hits) ! Suc j)) \<le> maxZ)" by blast
        then show "\<not> (minZ \<le> vz (point (hits ! j)) \<and> vz (point (hits ! j)) \<le> maxZ)" by simp
      qed
      with i k show ?R by (intro exI [of _ k]) simp
    next
      assume ?R
      then obtain k where k: "k < length hits" "s = vz (point (hits ! k))"
        "minZ \<le> s" "s \<le> maxZ"
        "\<forall>j < k. \<not> (minZ \<le> vz (point (hits ! j)) \<and> vz (point (hits ! j)) \<le> maxZ)"
        by blast
      have "\<forall>j < Suc k. \<not> (minZ \<le> vz (point ((h # hits) ! j)) \<and>
                            vz (point ((h # hits) ! j)) \<le> maxZ)"
      proof (intro allI impI)
        fix j assume j: "j < Suc k"
        show "\<not> (minZ \<le> vz (point ((h # hits) ! j)) \<and> vz (point ((h # hits) ! j)) \<le> maxZ)"
        proof (cases j)
          case 0
          with False show ?thesis by auto
        next
          case (Suc j')
          with j k(5) show ?thesis by simp
        qed
      qed
      with k show ?L by (intro exI [of _ "Suc k"]) simp
    qed
    with False Cons.IH show ?thesis by auto
  qed
qed

section \<open>The loops in closed form\<close>

lemma scanStepAt_append:
  "scanStepAt rnd rc g xs st y z r i pts = pts @ scanStepAt rnd rc g xs st y z r i []"
  by (simp add: scanStepAt_def Let_def split: option.splits)

lemma scanLoop_closed:
  "scanLoop rnd rc g xs st y z r n i pts =
   pts @ concat (map (\<lambda>k. scanStepAt rnd rc g xs st y z r k []) [i..<nat (n + 1)])"
proof (induction rnd rc g xs st y z r n i pts rule: scanLoop.induct)
  case (1 rnd rc g xs st y z r n i pts)
  show ?case
  proof (cases "int i \<le> n")
    case True
    then have "i < nat (n + 1)" by linarith
    then have upt: "[i..<nat (n + 1)] = i # [i + 1..<nat (n + 1)]"
      by (simp add: upt_conv_Cons)
    have "scanLoop rnd rc g xs st y z r n i pts =
          scanLoop rnd rc g xs st y z r n (i + 1) (scanStepAt rnd rc g xs st y z r i pts)"
      using True by (subst scanLoop.simps) simp
    also have "\<dots> = scanStepAt rnd rc g xs st y z r i pts @
          concat (map (\<lambda>k. scanStepAt rnd rc g xs st y z r k []) [i + 1..<nat (n + 1)])"
      using "1.IH" [OF True] .
    also have "\<dots> = pts @
          concat (map (\<lambda>k. scanStepAt rnd rc g xs st y z r k []) [i..<nat (n + 1)])"
      by (subst scanStepAt_append, subst upt) simp
    finally show ?thesis .
  next
    case False
    then have "nat (n + 1) \<le> i" by linarith
    with False show ?thesis by (subst scanLoop.simps) simp
  qed
qed

lemma scanLine_closed:
  "scanLine rnd rc g xS xE y z r =
   concat (map (\<lambda>k. scanStepAt rnd rc g xS (fmul rnd (toolDiameter (gparams g)) (rnd (2 / 10)))
                      y z r k [])
     [0..<nat (\<lceil>fdiv rnd (fsub rnd xE xS)
                   (fmul rnd (toolDiameter (gparams g)) (rnd (2 / 10)))\<rceil> + 1)])"
  by (simp add: scanLine_def Let_def scanLoop_closed)

lemma findSurfaceAtPoint_frame:
  "findSurfaceAtPoint rnd rc (g\<lparr>toolpath := t\<rparr>) x y z = findSurfaceAtPoint rnd rc g x y z"
  by (simp add: findSurfaceAtPoint_def Let_def)

lemma checkNeedsMachining_frame:
  "checkNeedsMachining (g\<lparr>toolpath := t\<rparr>) x y z = checkNeedsMachining g x y z"
  by (simp add: checkNeedsMachining_def)

lemma scanStepAt_frame:
  "scanStepAt rnd rc (g\<lparr>toolpath := t\<rparr>) xs st y z r i pts =
   scanStepAt rnd rc g xs st y z r i pts"
  by (simp add: scanStepAt_def Let_def findSurfaceAtPoint_frame checkNeedsMachining_frame
        cong: option.case_cong)

lemma scanLine_frame:
  "scanLine rnd rc (g\<lparr>toolpath := t\<rparr>) xS xE y z r = scanLine rnd rc g xS xE y z r"
  by (simp add: scanLine_closed scanStepAt_frame)

lemma contourLoop_frame:
  "contourLoop rnd rc (g\<lparr>toolpath := t\<rparr>) xS xE yS yE zL so r n i pts =
   contourLoop rnd rc g xS xE yS yE zL so r n i pts"
proof (induction rnd rc g xS xE yS yE zL so r n i pts rule: contourLoop.induct)
  case (1 rnd rc g xS xE yS yE zL so r n i pts)
  show ?case
    apply (subst contourLoop.simps)
    apply (subst (2) contourLoop.simps)
    using "1.IH" by (simp add: Let_def scanLine_frame)
qed

lemma generateContourAtZ_frame:
  "generateContourAtZ rnd rc (g\<lparr>toolpath := t\<rparr>) zL so r = generateContourAtZ rnd rc g zL so r"
  by (simp add: generateContourAtZ_def contourLoop_frame)

text \<open>
  The rows of a contour: the Y-step indices from \<open>i\<close> on, up to the first whose Y
  position is beyond \<open>yEnd\<close>, where the loop breaks.
\<close>

lemma contourLoop_closed:
  "contourLoop rnd rc g xS xE yS yE zL so r n i pts =
   pts @ concat (map (\<lambda>k. if k mod 2 = 1
                           then rev (scanLine rnd rc g xS xE (fadd rnd yS (fmul rnd (real k) so)) zL r)
                           else scanLine rnd rc g xS xE (fadd rnd yS (fmul rnd (real k) so)) zL r)
                  (takeWhile (\<lambda>k. \<not> fadd rnd yS (fmul rnd (real k) so) > yE) [i..<nat n]))"
proof (induction "nat n - i" arbitrary: i pts)
  case 0
  then have "\<not> int i < n" by linarith
  moreover from 0 have "nat n \<le> i" by simp
  ultimately show ?case by (subst contourLoop.simps) simp
next
  case (Suc d)
  then have lt: "int i < n" by linarith
  then have "i < nat n" by linarith
  then have upt: "[i..<nat n] = i # [Suc i..<nat n]"
    by (simp add: upt_conv_Cons)
  from Suc(2) have d: "d = nat n - Suc i" by simp
  show ?case
    apply (subst contourLoop.simps)
    apply (subst upt)
    using lt by (simp add: Let_def Suc(1) [OF d])
qed

lemma takeWhile_upt_prefix:
  "takeWhile P [0..<n] = [0..<length (takeWhile P [0..<n])]"
proof -
  have "takeWhile P [0..<n] = take (length (takeWhile P [0..<n])) [0..<n]"
    by (rule takeWhile_eq_take)
  also have "\<dots> = [0..<min (length (takeWhile P [0..<n])) n]"
    by (simp add: take_upt min_def)
  also have "length (takeWhile P [0..<n]) \<le> n"
    using length_takeWhile_le [of P "[0..<n]"] by simp
  then have "min (length (takeWhile P [0..<n])) n = length (takeWhile P [0..<n])" by simp
  finally show ?thesis .
qed

lemma layerLoop_closed:
  "toolpath (layerLoop rnd rc so tr zS zE nL i g) =
   toolpath g @
   map (\<lambda>k. \<lparr>layer = k,
              layer_z = max (fsub rnd zS (fmul rnd (real k) (stepdown (gparams g)))) zE,
              points = generateContourAtZ rnd rc g
                 (max (fsub rnd zS (fmul rnd (real k) (stepdown (gparams g)))) zE) so tr\<rparr>)
     (filter (\<lambda>k. generateContourAtZ rnd rc g
                 (max (fsub rnd zS (fmul rnd (real k) (stepdown (gparams g)))) zE) so tr \<noteq> [])
        [i..<nat nL])"
proof (induction "nat nL - i" arbitrary: i g)
  case 0
  then have "\<not> int i < nL" by linarith
  moreover from 0 have "nat nL \<le> i" by simp
  ultimately show ?case by (subst layerLoop.simps) simp
next
  case (Suc d)
  then have lt: "int i < nL" by linarith
  then have "i < nat nL" by linarith
  then have upt: "[i..<nat nL] = i # [Suc i..<nat nL]"
    by (simp add: upt_conv_Cons)
  from Suc(2) have d: "d = nat nL - Suc i" by simp
  show ?case
    apply (subst layerLoop.simps)
    apply (subst upt)
    using lt by (simp add: Let_def Suc(1) [OF d] generateContourAtZ_frame)
qed

lemma generate_closed:
  "toolpath (generate rnd rc g0 m b) =
   map (\<lambda>k. \<lparr>layer = k, layer_z = layerPlane rnd (gparams g0) b k,
              points = layerContour rnd rc (gparams g0) m b k\<rparr>)
     (filter (\<lambda>k. layerContour rnd rc (gparams g0) m b k \<noteq> [])
        [0..<nat (numLayersOf rnd (gparams g0) b)])"
proof -
  have g: "g0\<lparr>mesh := m, bounds := b, toolpath := []\<rparr> = runInstance (gparams g0) m b"
    by (cases g0) (simp add: runInstance_def)
  have p: "gparams (runInstance (gparams g0) m b) = gparams g0"
    by (simp add: runInstance_def)
  show ?thesis
    by (simp add: generate_def Let_def layerLoop_closed g p layerContour_def layerPlane_def
        rowSpacing_def toolRadiusOf_def)
      (simp add: runInstance_def)
qed

lemma layerContour_closed:
  "layerContour rnd rc p m b k =
   concat (map (\<lambda>j. if j mod 2 = 1 then rev (layerRow rnd rc p m b k j)
                     else layerRow rnd rc p m b k j) [0..<layerRows rnd p b])"
proof -
  let ?P = "\<lambda>j. \<not> rowY rnd p b j > vy (box_max b)"
  let ?n = "nat \<lceil>fdiv rnd (fsub rnd (vy (box_max b)) (vy (box_min b))) (rowSpacing rnd p)\<rceil>"
  have "layerContour rnd rc p m b k =
        concat (map (\<lambda>j. if j mod 2 = 1 then rev (layerRow rnd rc p m b k j)
                          else layerRow rnd rc p m b k j) (takeWhile ?P [0..<?n]))"
    by (simp add: layerContour_def generateContourAtZ_def Let_def contourLoop_closed
        layerRow_def rowY_def runInstance_def cong: if_cong)
  also have "takeWhile ?P [0..<?n] = [0..<layerRows rnd p b]"
    unfolding layerRows_def by (rule takeWhile_upt_prefix)
  finally show ?thesis .
qed

lemma generate_layer:
  assumes "l \<in> set (toolpath (generate rnd rc g0 m b))"
  shows "layer l < nat (numLayersOf rnd (gparams g0) b) \<and>
         layer_z l = layerPlane rnd (gparams g0) b (layer l) \<and>
         points l = layerContour rnd rc (gparams g0) m b (layer l) \<and>
         points l \<noteq> []"
  using assms by (auto simp: generate_closed)

section \<open>A run on one horizontal plane\<close>

lemmas no_rounding = fadd_def fsub_def fmul_def fdiv_def noRounding_def

lemma upt_0_2: "[0..<2] = [0, Suc 0]"
  by (simp add: upt_rec numeral_2_eq_2)

lemma example_box:
  "vx (box_min exampleBounds) = 0" "vy (box_min exampleBounds) = 0"
  "vz (box_min exampleBounds) = 0" "vx (box_max exampleBounds) = 1 / 5"
  "vy (box_max exampleBounds) = 2" "vz (box_max exampleBounds) = 1"
  by (simp_all add: exampleBounds_def)

lemma example_surface_top:
  "findSurfaceAtPoint noRounding planeRaycaster (runInstance exampleParams [7 / 10] exampleBounds)
     x y 1 = Some (7 / 10)"
  by (simp add: findSurfaceAtPoint_def planeRaycaster_def runInstance_def example_box
      no_rounding)

lemma example_surface_low:
  "findSurfaceAtPoint noRounding planeRaycaster (runInstance exampleParams [7 / 10] exampleBounds)
     x y (1 / 2) = None"
  by (simp add: findSurfaceAtPoint_def planeRaycaster_def runInstance_def example_box
      no_rounding)

lemma example_fields:
  "gparams (runInstance exampleParams m exampleBounds) = exampleParams"
  "bounds (runInstance exampleParams m exampleBounds) = exampleBounds"
  by (simp_all add: runInstance_def)

lemma example_planes:
  "layerPlane noRounding exampleParams exampleBounds 0 = 1"
  "layerPlane noRounding exampleParams exampleBounds 1 = 1 / 2"
  "toolRadiusOf noRounding exampleParams = 1 / 2"
  "rowSpacing noRounding exampleParams = 1"
  by (simp_all add: layerPlane_def toolRadiusOf_def rowSpacing_def exampleParams_def
      example_box no_rounding)

lemma example_rowY: "rowY noRounding exampleParams exampleBounds j = real j"
  by (simp add: rowY_def example_planes example_box no_rounding)

lemma example_layerRows: "layerRows noRounding exampleParams exampleBounds = 2"
  by (simp add: layerRows_def example_rowY example_planes example_box no_rounding upt_0_2)

lemma example_row_top:
  assumes "j < 2"
  shows "layerRow noRounding planeRaycaster exampleParams [7 / 10] exampleBounds 0 j =
         [\<lparr>vx = 0, vy = real j, vz = 6 / 5\<rparr>, \<lparr>vx = 1 / 5, vy = real j, vz = 6 / 5\<rparr>]"
proof -
  from assms have y: "real j \<le> 2" by simp
  have st: "fmul noRounding (toolDiameter exampleParams) (noRounding (2 / 10)) = 1 / 5"
    by (simp add: exampleParams_def no_rounding)
  have n: "nat (\<lceil>fdiv noRounding (fsub noRounding (1 / 5) 0) (1 / 5)\<rceil> + 1) = 2"
    by (simp add: no_rounding)
  show ?thesis
    unfolding layerRow_def example_planes example_rowY scanLine_closed example_fields st
      example_box n upt_0_2
    using y
    by (simp add: scanStepAt_def example_surface_top checkNeedsMachining_def example_fields
        example_box no_rounding)
qed

lemma example_row_low:
  "layerRow noRounding planeRaycaster exampleParams [7 / 10] exampleBounds 1 j = []"
  unfolding layerRow_def example_planes scanLine_closed
  by (simp add: scanStepAt_def example_surface_low Let_def)

lemma example_contour_0:
  "layerContour noRounding planeRaycaster exampleParams [7 / 10] exampleBounds 0 =
   [\<lparr>vx = 0, vy = 0, vz = 6 / 5\<rparr>, \<lparr>vx = 1 / 5, vy = 0, vz = 6 / 5\<rparr>,
    \<lparr>vx = 1 / 5, vy = 1, vz = 6 / 5\<rparr>, \<lparr>vx = 0, vy = 1, vz = 6 / 5\<rparr>]"
  by (simp add: layerContour_closed example_layerRows upt_0_2 example_row_top)

lemma example_contour_1:
  "layerContour noRounding planeRaycaster exampleParams [7 / 10] exampleBounds 1 = []"
  unfolding layerContour_closed example_row_low by auto

lemma example_numLayers: "numLayersOf noRounding exampleParams exampleBounds = 2"
  by (simp add: numLayersOf_def exampleParams_def example_box no_rounding)

lemma example_params: "gparams exampleGenerator = exampleParams"
  by (simp add: exampleGenerator_def)

lemma example_run:
  "toolpath (generate noRounding planeRaycaster exampleGenerator [7 / 10] exampleBounds) =
   [\<lparr>layer = 0, layer_z = 1,
     points = [\<lparr>vx = 0, vy = 0, vz = 6 / 5\<rparr>, \<lparr>vx = 1 / 5, vy = 0, vz = 6 / 5\<rparr>,
               \<lparr>vx = 1 / 5, vy = 1, vz = 6 / 5\<rparr>, \<lparr>vx = 0, vy = 1, vz = 6 / 5\<rparr>]\<rparr>]"
  by (simp add: generate_closed example_params example_numLayers upt_0_2 example_contour_0
      example_contour_1 [unfolded One_nat_def] example_planes)

lemma example_valid: "valid_params noRounding (gparams exampleGenerator)"
  by (simp add: valid_params_def example_params exampleParams_def no_rounding)

lemma noRounding_monotone: "monotone_rounding noRounding"
  by (simp add: monotone_rounding_def noRounding_def)

section \<open>What a scan emits\<close>

lemma findSurfaceAtPoint_range:
  assumes "findSurfaceAtPoint rnd rc g x y z = Some s"
  shows "vz (box_min (bounds g)) \<le> s \<and> s \<le> z"
proof -
  from assms have "firstHitWithin z (vz (box_min (bounds g)))
      (rc (mesh g) \<lparr>vx = x, vy = y, vz = fadd rnd z 100\<rparr> \<lparr>vx = 0, vy = 0, vz = - 1\<rparr>) = Some s"
    by (simp add: findSurfaceAtPoint_def Let_def split: if_splits)
  then show ?thesis by (auto simp: firstHitWithin_Some)
qed

lemma scanStepAt_cases:
  "scanStepAt rnd rc g xS st y z r k [] = [] \<or>
   (\<exists>s. scanStepAt rnd rc g xS st y z r k [] =
          [\<lparr>vx = fadd rnd xS (fmul rnd (real k) st), vy = y, vz = fadd rnd s r\<rparr>] \<and>
        findSurfaceAtPoint rnd rc g (fadd rnd xS (fmul rnd (real k) st)) y z = Some s \<and>
        checkNeedsMachining g (fadd rnd xS (fmul rnd (real k) st)) y s)"
  by (simp add: scanStepAt_def Let_def split: option.splits)

lemma scanStepAt_point:
  assumes "p \<in> set (scanStepAt rnd rc g xS st y z r k [])"
  shows "vx p = fadd rnd xS (fmul rnd (real k) st) \<and> vy p = y \<and>
         vx (box_min (bounds g)) \<le> vx p \<and> vx p \<le> vx (box_max (bounds g)) \<and>
         vy (box_min (bounds g)) \<le> vy p \<and> vy p \<le> vy (box_max (bounds g)) \<and>
         (\<exists>s. findSurfaceAtPoint rnd rc g (vx p) (vy p) z = Some s \<and> vz p = fadd rnd s r \<and>
              vz (box_min (bounds g)) \<le> s \<and> s \<le> vz (box_max (bounds g)) \<and> s \<le> z)"
proof -
  from assms scanStepAt_cases [of rnd rc g xS st y z r k]
  obtain s where s: "p = \<lparr>vx = fadd rnd xS (fmul rnd (real k) st), vy = y, vz = fadd rnd s r\<rparr>"
    "findSurfaceAtPoint rnd rc g (fadd rnd xS (fmul rnd (real k) st)) y z = Some s"
    "checkNeedsMachining g (fadd rnd xS (fmul rnd (real k) st)) y s"
    by auto
  from s(2) have "s \<le> z" by (simp add: findSurfaceAtPoint_range)
  with s show ?thesis
    by (auto simp: checkNeedsMachining_def split: if_splits)
qed

lemma scanLine_point:
  assumes "p \<in> set (scanLine rnd rc g xS xE y z r)"
  shows "vy p = y \<and>
         vx (box_min (bounds g)) \<le> vx p \<and> vx p \<le> vx (box_max (bounds g)) \<and>
         vy (box_min (bounds g)) \<le> vy p \<and> vy p \<le> vy (box_max (bounds g)) \<and>
         (\<exists>s. findSurfaceAtPoint rnd rc g (vx p) (vy p) z = Some s \<and> vz p = fadd rnd s r \<and>
              vz (box_min (bounds g)) \<le> s \<and> s \<le> vz (box_max (bounds g)) \<and> s \<le> z)"
proof -
  from assms obtain k where
    "p \<in> set (scanStepAt rnd rc g xS (fmul rnd (toolDiameter (gparams g)) (rnd (2 / 10)))
                y z r k [])"
    by (auto simp: scanLine_closed)
  from scanStepAt_point [OF this] show ?thesis by auto
qed

lemma sorted_concat_steps:
  fixes f :: "nat \<Rightarrow> vector3 list" and x :: "nat \<Rightarrow> real"
  assumes x: "\<And>k k'. k \<le> k' \<Longrightarrow> x k \<le> x k'"
    and f: "\<And>k. f k = [] \<or> (\<exists>p. f k = [p] \<and> vx p = x k)"
  shows "sorted (map vx (concat (map f [i..<j])))"
proof (induction j)
  case 0
  show ?case by simp
next
  case (Suc j)
  show ?case
  proof (cases "i \<le> j")
    case False
    then show ?thesis by simp
  next
    case True
    have earlier: "vx q \<le> x j" if "q \<in> set (concat (map f [i..<j]))" for q
    proof -
      from that obtain k where k: "k < j" "q \<in> set (f k)" by auto
      with f [of k] have "vx q = x k" by auto
      moreover from k(1) have "x k \<le> x j" by (intro x) simp
      ultimately show ?thesis by simp
    qed
    have last: "sorted (map vx (f j))" using f [of j] by auto
    have "\<forall>q \<in> set (concat (map f [i..<j])). \<forall>q' \<in> set (f j). vx q \<le> vx q'"
    proof (intro ballI)
      fix q q' assume q: "q \<in> set (concat (map f [i..<j]))" and q': "q' \<in> set (f j)"
      from q' f [of j] have "vx q' = x j" by auto
      with earlier [OF q] show "vx q \<le> vx q'" by simp
    qed
    with True Suc last show ?thesis
      by (simp add: sorted_append)
  qed
qed

lemma scanLine_nondecreasing:
  assumes m: "monotone_rounding rnd"
    and st: "0 \<le> fmul rnd (toolDiameter (gparams g)) (rnd (2 / 10))"
  shows "sorted (map vx (scanLine rnd rc g xS xE y z r))"
  unfolding scanLine_closed
proof (rule sorted_concat_steps
    [where x = "\<lambda>k. fadd rnd xS (fmul rnd (real k)
                       (fmul rnd (toolDiameter (gparams g)) (rnd (2 / 10))))"])
  fix k k' :: nat
  assume "k \<le> k'"
  then have "real k * fmul rnd (toolDiameter (gparams g)) (rnd (2 / 10)) \<le>
             real k' * fmul rnd (toolDiameter (gparams g)) (rnd (2 / 10))"
    using st by (intro mult_right_mono) simp_all
  with m have "fmul rnd (real k) (fmul rnd (toolDiameter (gparams g)) (rnd (2 / 10))) \<le>
               fmul rnd (real k') (fmul rnd (toolDiameter (gparams g)) (rnd (2 / 10)))"
    unfolding fmul_def [of rnd "real k"] fmul_def [of rnd "real k'"]
    by (simp add: monotone_rounding_def)
  with m show "fadd rnd xS (fmul rnd (real k)
                  (fmul rnd (toolDiameter (gparams g)) (rnd (2 / 10)))) \<le>
               fadd rnd xS (fmul rnd (real k')
                  (fmul rnd (toolDiameter (gparams g)) (rnd (2 / 10))))"
    unfolding fadd_def by (simp add: monotone_rounding_def)
next
  fix k
  show "scanStepAt rnd rc g xS (fmul rnd (toolDiameter (gparams g)) (rnd (2 / 10))) y z r k [] = [] \<or>
        (\<exists>p. scanStepAt rnd rc g xS (fmul rnd (toolDiameter (gparams g)) (rnd (2 / 10)))
                 y z r k [] = [p] \<and>
           vx p = fadd rnd xS (fmul rnd (real k)
                    (fmul rnd (toolDiameter (gparams g)) (rnd (2 / 10)))))"
    using scanStepAt_cases [of rnd rc g xS "fmul rnd (toolDiameter (gparams g)) (rnd (2 / 10))"
        y z r k]
    by auto
qed

section \<open>The loader: detection and the binary loop\<close>

lemma isBinarySTL_short:
  "length buffer < 84 \<Longrightarrow> isBinarySTL buffer = Inl RangeError"
  by (simp add: isBinarySTL_def getUint32_def bind_err_def)

lemma isBinarySTL_long:
  "84 \<le> length buffer \<Longrightarrow>
   isBinarySTL buffer = Inr (length buffer = 84 + declaredCount buffer * 50)"
  by (simp add: isBinarySTL_def getUint32_def bind_err_def declaredCount_def)

lemma update9_take:
  assumes "n + 9 \<le> length xs"
  shows "take (n + 9) (xs[n := a0, n + 1 := a1, n + 2 := a2, n + 3 := a3, n + 4 := a4,
                          n + 5 := a5, n + 6 := a6, n + 7 := a7, n + 8 := a8]) =
         take n xs @ [a0, a1, a2, a3, a4, a5, a6, a7, a8]"
proof (rule nth_equalityI)
  show "length (take (n + 9) (xs[n := a0, n + 1 := a1, n + 2 := a2, n + 3 := a3, n + 4 := a4,
                          n + 5 := a5, n + 6 := a6, n + 7 := a7, n + 8 := a8])) =
        length (take n xs @ [a0, a1, a2, a3, a4, a5, a6, a7, a8])"
    using assms by simp
next
  fix j
  assume "j < length (take (n + 9) (xs[n := a0, n + 1 := a1, n + 2 := a2, n + 3 := a3,
             n + 4 := a4, n + 5 := a5, n + 6 := a6, n + 7 := a7, n + 8 := a8]))"
  with assms have j: "j < n + 9" by simp
  show "take (n + 9) (xs[n := a0, n + 1 := a1, n + 2 := a2, n + 3 := a3, n + 4 := a4,
                          n + 5 := a5, n + 6 := a6, n + 7 := a7, n + 8 := a8]) ! j =
        (take n xs @ [a0, a1, a2, a3, a4, a5, a6, a7, a8]) ! j"
  proof (cases "j < n")
    case True
    with assms j show ?thesis by (simp add: nth_append)
  next
    case False
    with j have "j = n \<or> j = n + 1 \<or> j = n + 2 \<or> j = n + 3 \<or> j = n + 4 \<or> j = n + 5 \<or>
                 j = n + 6 \<or> j = n + 7 \<or> j = n + 8" by arith
    with assms show ?thesis
      by (elim disjE) (simp_all add: nth_append)
  qed
qed

lemma getFloat32_in_range:
  "off + 4 \<le> length buffer \<Longrightarrow>
   getFloat32 pf buffer off = Inr (float32 pf (word32At buffer off))"
  by (simp add: getFloat32_def)

lemma bind_err_Inr: "bind_err (Inr a) f = f a"
  by (simp add: bind_err_def)

lemma bind_err_Inl: "bind_err (Inl e) f = Inl e"
  by (simp add: bind_err_def)

lemma binaryLoop_step:
  assumes "i < numTriangles" and "84 + 50 * numTriangles \<le> length buffer"
  shows "binaryLoop pf buffer numTriangles i (84 + 50 * i) pos nrm =
         binaryLoop pf buffer numTriangles (i + 1) (84 + 50 * (i + 1))
           (pos[i * 9 := recordFloat pf buffer i 3, i * 9 + 1 := recordFloat pf buffer i 4,
                i * 9 + 2 := recordFloat pf buffer i 5, i * 9 + 3 := recordFloat pf buffer i 6,
                i * 9 + 4 := recordFloat pf buffer i 7, i * 9 + 5 := recordFloat pf buffer i 8,
                i * 9 + 6 := recordFloat pf buffer i 9, i * 9 + 7 := recordFloat pf buffer i 10,
                i * 9 + 8 := recordFloat pf buffer i 11])
           (nrm[i * 9 := recordFloat pf buffer i 0, i * 9 + 1 := recordFloat pf buffer i 1,
                i * 9 + 2 := recordFloat pf buffer i 2, i * 9 + 3 := recordFloat pf buffer i 0,
                i * 9 + 4 := recordFloat pf buffer i 1, i * 9 + 5 := recordFloat pf buffer i 2,
                i * 9 + 6 := recordFloat pf buffer i 0, i * 9 + 7 := recordFloat pf buffer i 1,
                i * 9 + 8 := recordFloat pf buffer i 2])"
proof -
  from assms have r: "84 + 50 * i + 50 \<le> length buffer" by simp
  show ?thesis
    apply (subst binaryLoop.simps)
    using assms(1) r
    apply (simp add: Let_def getFloat32_def bind_err_Inr recordFloat_def algebra_simps)
    done
qed


lemma binaryLoop_closed:
  assumes buf: "84 + 50 * numTriangles \<le> length buffer"
    and "length pos = numTriangles * 9" and "length nrm = numTriangles * 9"
    and "i \<le> numTriangles"
  shows "binaryLoop pf buffer numTriangles i (84 + 50 * i) pos nrm =
         Inr (take (i * 9) pos @ concat (map (recordVertices pf buffer) [i..<numTriangles]),
              take (i * 9) nrm @ concat (map (recordNormals pf buffer) [i..<numTriangles]))"
  using assms(2-)
proof (induction "numTriangles - i" arbitrary: i pos nrm)
  case 0
  then have "i = numTriangles" by simp
  with 0 show ?case by (subst binaryLoop.simps) simp
next
  case (Suc d)
  then have lt: "i < numTriangles" by simp
  then have upt: "[i..<numTriangles] = i # [Suc i..<numTriangles]"
    by (simp add: upt_conv_Cons)
  from lt Suc.prems have room: "i * 9 + 9 \<le> length pos" "i * 9 + 9 \<le> length nrm" by simp_all
  let ?pos = "pos[i * 9 := recordFloat pf buffer i 3, i * 9 + 1 := recordFloat pf buffer i 4,
                i * 9 + 2 := recordFloat pf buffer i 5, i * 9 + 3 := recordFloat pf buffer i 6,
                i * 9 + 4 := recordFloat pf buffer i 7, i * 9 + 5 := recordFloat pf buffer i 8,
                i * 9 + 6 := recordFloat pf buffer i 9, i * 9 + 7 := recordFloat pf buffer i 10,
                i * 9 + 8 := recordFloat pf buffer i 11]"
  let ?nrm = "nrm[i * 9 := recordFloat pf buffer i 0, i * 9 + 1 := recordFloat pf buffer i 1,
                i * 9 + 2 := recordFloat pf buffer i 2, i * 9 + 3 := recordFloat pf buffer i 0,
                i * 9 + 4 := recordFloat pf buffer i 1, i * 9 + 5 := recordFloat pf buffer i 2,
                i * 9 + 6 := recordFloat pf buffer i 0, i * 9 + 7 := recordFloat pf buffer i 1,
                i * 9 + 8 := recordFloat pf buffer i 2]"
  have d: "d = numTriangles - (i + 1)" using Suc(2) by simp
  have len: "length ?pos = numTriangles * 9" "length ?nrm = numTriangles * 9"
    using Suc.prems by simp_all
  have le: "i + 1 \<le> numTriangles" using lt by simp
  have tp: "take ((i + 1) * 9) ?pos = take (i * 9) pos @ recordVertices pf buffer i"
    using update9_take [OF room(1)] by (simp add: recordVertices_def add.commute)
  have tn: "take ((i + 1) * 9) ?nrm = take (i * 9) nrm @ recordNormals pf buffer i"
    using update9_take [OF room(2)] by (simp add: recordNormals_def add.commute)
  have "binaryLoop pf buffer numTriangles i (84 + 50 * i) pos nrm =
        binaryLoop pf buffer numTriangles (i + 1) (84 + 50 * (i + 1)) ?pos ?nrm"
    by (rule binaryLoop_step [OF lt buf])
  also have "\<dots> =
        Inr (take ((i + 1) * 9) ?pos @
               concat (map (recordVertices pf buffer) [i + 1..<numTriangles]),
             take ((i + 1) * 9) ?nrm @
               concat (map (recordNormals pf buffer) [i + 1..<numTriangles]))"
    by (rule Suc(1) [OF d len le])
  also have "\<dots> =
        Inr (take (i * 9) pos @ concat (map (recordVertices pf buffer) [i..<numTriangles]),
             take (i * 9) nrm @ concat (map (recordNormals pf buffer) [i..<numTriangles]))"
    unfolding tp tn upt by simp
  finally show ?case .
qed

lemma parseBinary_closed:
  assumes "84 + 50 * declaredCount buffer \<le> length buffer"
  shows "parseBinary pf buffer =
         Inr \<lparr>positions = concat (map (recordVertices pf buffer) [0..<declaredCount buffer]),
              normals = concat (map (recordNormals pf buffer) [0..<declaredCount buffer]),
              boundingBox = None\<rparr>"
proof -
  from assms have "84 \<le> length buffer" by simp
  then have c: "getUint32 buffer 80 = Inr (declaredCount buffer)"
    by (simp add: getUint32_def declaredCount_def)
  have "binaryLoop pf buffer (declaredCount buffer) 0 (84 + 50 * 0)
          (replicate (declaredCount buffer * 9) 0) (replicate (declaredCount buffer * 9) 0) =
        Inr (take (0 * 9) (replicate (declaredCount buffer * 9) 0) @
               concat (map (recordVertices pf buffer) [0..<declaredCount buffer]),
             take (0 * 9) (replicate (declaredCount buffer * 9) 0) @
               concat (map (recordNormals pf buffer) [0..<declaredCount buffer]))"
    by (rule binaryLoop_closed [OF assms]) simp_all
  then show ?thesis
    by (simp add: parseBinary_def c bind_err_Inr Let_def)
qed

section \<open>The loader: reading back an encoded stream\<close>

lemma le32_bytesOf32: "le32 (ucast w) (ucast (drop_bit 8 w)) (ucast (drop_bit 16 w)) (ucast (drop_bit 24 w)) = w"
  unfolding le32_def
proof (rule bit_word_eqI)
  fix n assume "n < LENGTH(32)"
  then have n: "n < 32" by simp
  consider "n < 8" | "8 \<le> n" "n < 16" | "16 \<le> n" "n < 24" | "24 \<le> n"
    by linarith
  then show "bit (ucast (ucast w :: byte) OR push_bit 8 (ucast (ucast (drop_bit 8 w) :: byte)) OR
                  push_bit 16 (ucast (ucast (drop_bit 16 w) :: byte)) OR
                  push_bit 24 (ucast (ucast (drop_bit 24 w) :: byte)) :: 32 word) n = bit w n"
    using n by cases (auto simp: bit_simps)
qed


lemma length_bytesOf32: "length (bytesOf32 w) = 4"
  by (simp add: bytesOf32_def)

lemma word32At_append_right: "word32At (xs @ ys) (length xs + off) = word32At ys off"
  by (simp add: word32At_def nth_append)

lemma word32At_bytesOf32: "word32At (bytesOf32 w @ ys) 0 = w"
  by (simp add: word32At_def bytesOf32_def le32_bytesOf32)

lemma word32At_words:
  "j < length ws \<Longrightarrow> word32At (concat (map bytesOf32 ws) @ ys) (4 * j) = ws ! j"
proof (induction ws arbitrary: j)
  case Nil
  then show ?case by simp
next
  case (Cons w ws)
  show ?case
  proof (cases j)
    case 0
    then show ?thesis by (simp add: word32At_bytesOf32)
  next
    case (Suc k)
    with Cons.prems have k: "k < length ws" by simp
    have "word32At (concat (map bytesOf32 (w # ws)) @ ys) (4 * j) =
          word32At (bytesOf32 w @ (concat (map bytesOf32 ws) @ ys)) (length (bytesOf32 w) + 4 * k)"
      using Suc by (simp add: length_bytesOf32)
    also have "\<dots> = word32At (concat (map bytesOf32 ws) @ ys) (4 * k)"
      by (rule word32At_append_right)
    also have "\<dots> = ws ! k" by (rule Cons.IH [OF k])
    finally show ?thesis using Suc by simp
  qed
qed

lemma length_concat_words: "length (concat (map bytesOf32 ws)) = 4 * length ws"
  by (induction ws) (simp_all add: length_bytesOf32)

lemma length_encodeFacet: "wellFormedFacet f \<Longrightarrow> length (encodeFacet f) = 50"
  by (simp add: wellFormedFacet_def encodeFacet_def length_concat_words)

lemma length_encodeFacets:
  "\<forall>f \<in> set fs. wellFormedFacet f \<Longrightarrow> length (concat (map encodeFacet fs)) = 50 * length fs"
  by (induction fs) (simp_all add: length_encodeFacet)

lemma word32At_facets:
  assumes "\<forall>f \<in> set fs. wellFormedFacet f" and "k < length fs" and "j < 12"
  shows "word32At (concat (map encodeFacet fs) @ ys) (50 * k + 4 * j) =
         (normalBits (fs ! k) @ vertexBits (fs ! k)) ! j"
  using assms(1,2)
proof (induction fs arbitrary: k)
  case Nil
  then show ?case by simp
next
  case (Cons f fs)
  from Cons.prems(1) have wf: "wellFormedFacet f" by simp
  show ?case
  proof (cases k)
    case 0
    from wf assms(3) have j: "j < length (normalBits f @ vertexBits f)"
      by (simp add: wellFormedFacet_def)
    have "word32At (concat (map encodeFacet (f # fs)) @ ys) (50 * k + 4 * j) =
          word32At (concat (map bytesOf32 (normalBits f @ vertexBits f)) @
                     (attributeBytes f @ concat (map encodeFacet fs) @ ys)) (4 * j)"
      using 0 by (simp add: encodeFacet_def)
    also have "\<dots> = (normalBits f @ vertexBits f) ! j"
      by (rule word32At_words [OF j])
    finally show ?thesis using 0 by simp
  next
    case (Suc k')
    with Cons.prems have k': "k' < length fs" and wfs: "\<forall>f \<in> set fs. wellFormedFacet f"
      by simp_all
    have "word32At (concat (map encodeFacet (f # fs)) @ ys) (50 * k + 4 * j) =
          word32At (encodeFacet f @ (concat (map encodeFacet fs) @ ys))
            (length (encodeFacet f) + (50 * k' + 4 * j))"
      using Suc by (simp add: length_encodeFacet [OF wf] add.assoc)
    also have "\<dots> = word32At (concat (map encodeFacet fs) @ ys) (50 * k' + 4 * j)"
      by (rule word32At_append_right)
    also have "\<dots> = (normalBits (fs ! k') @ vertexBits (fs ! k')) ! j"
      by (rule Cons.IH [OF wfs k'])
    finally show ?thesis using Suc by simp
  qed
qed

lemma length_encodeSTL:
  "\<forall>f \<in> set fs. wellFormedFacet f \<Longrightarrow>
   length (encodeSTL header fs) = length header + 4 + 50 * length fs"
  by (simp add: encodeSTL_def length_bytesOf32 length_encodeFacets)

lemma declaredCount_encodeSTL:
  assumes "length header = 80" and "length fs < 2 ^ 32"
  shows "declaredCount (encodeSTL header fs) = length fs"
proof -
  have "word32At (encodeSTL header fs) 80 =
        word32At (header @ (bytesOf32 (of_nat (length fs)) @ concat (map encodeFacet fs)))
          (length header + 0)"
    using assms(1) by (simp add: encodeSTL_def)
  also have "\<dots> = word32At (bytesOf32 (of_nat (length fs)) @ concat (map encodeFacet fs)) 0"
    by (rule word32At_append_right)
  also have "\<dots> = of_nat (length fs)" by (rule word32At_bytesOf32)
  finally have "declaredCount (encodeSTL header fs) = unat (of_nat (length fs) :: 32 word)"
    by (simp add: declaredCount_def)
  also have "\<dots> = length fs"
    using assms(2) by (simp add: unat_of_nat)
  finally show ?thesis .
qed

lemma recordFloat_encodeSTL:
  assumes "length header = 80" and "\<forall>f \<in> set fs. wellFormedFacet f"
    and "k < length fs" and "j < 12"
  shows "recordFloat pf (encodeSTL header fs) k j =
         float32 pf ((normalBits (fs ! k) @ vertexBits (fs ! k)) ! j)"
proof -
  have "word32At (encodeSTL header fs) (84 + 50 * k + 4 * j) =
        word32At ((header @ bytesOf32 (of_nat (length fs))) @ (concat (map encodeFacet fs) @ []))
          (length (header @ bytesOf32 (of_nat (length fs))) + (50 * k + 4 * j))"
    using assms(1) by (simp add: encodeSTL_def length_bytesOf32 add.assoc)
  also have "\<dots> = word32At (concat (map encodeFacet fs) @ []) (50 * k + 4 * j)"
    by (rule word32At_append_right)
  also have "\<dots> = (normalBits (fs ! k) @ vertexBits (fs ! k)) ! j"
    by (rule word32At_facets [OF assms(2,3,4)])
  finally show ?thesis by (simp add: recordFloat_def)
qed

section \<open>The loader: dispatch, and a truncated stream\<close>

lemma load_short:
  "length buffer < 84 \<Longrightarrow> load pf buffer = Inl RangeError"
  by (simp add: load_def isBinarySTL_short bind_err_Inl)

lemma load_binary:
  assumes "length buffer = 84 + declaredCount buffer * 50"
  shows "load pf buffer =
         Inr (postLoad pf
           \<lparr>positions = concat (map (recordVertices pf buffer) [0..<declaredCount buffer]),
            normals = concat (map (recordNormals pf buffer) [0..<declaredCount buffer]),
            boundingBox = None\<rparr>)"
proof -
  from assms have l: "84 \<le> length buffer" and r: "84 + 50 * declaredCount buffer \<le> length buffer"
    by simp_all
  show ?thesis
    using assms
    by (simp add: load_def isBinarySTL_long [OF l] bind_err_Inr parseBinary_closed [OF r])
qed

lemma load_textual:
  assumes "84 \<le> length buffer" and "length buffer \<noteq> 84 + declaredCount buffer * 50"
  shows "load pf buffer = Inr (postLoad pf (parseASCII pf buffer))"
  using assms(2) by (simp add: load_def isBinarySTL_long [OF assms(1)] bind_err_Inr)

lemma examplePlatform_contract: "three_contract examplePlatform"
  by (simp add: three_contract_def examplePlatform_def threeVertexNormals_def
      threeBoundingBox_def)

lemma splitLines_no_newline: "10 \<notin> set s \<Longrightarrow> splitLines s = [s]"
  by (induction s) auto

lemma truncated_length: "length truncatedStream = 84"
  by (simp add: truncatedStream_def)

lemma truncated_count: "declaredCount truncatedStream = 1"
  by (simp add: declaredCount_def word32At_def truncatedStream_def nth_append le32_def)

lemma truncated_text:
  "parseASCII examplePlatform truncatedStream =
   \<lparr>positions = [], normals = [], boundingBox = None\<rparr>"
proof -
  let ?s = "textDecode examplePlatform truncatedStream"
  have s: "?s = replicate 80 0 @ [1, 0, 0, 0]"
    by (simp add: examplePlatform_def asciiDecode_def truncatedStream_def)
  have "10 \<notin> set ?s" unfolding s by simp
  then have lines: "splitLines ?s = [?s]" by (rule splitLines_no_newline)
  have s': "?s = 0 # replicate 79 0 @ [1, 0, 0, 0]"
    unfolding s by (simp add: numeral_eq_Suc)
  have rs: "rev ?s = 0 # 0 # 0 # 1 # replicate 80 0"
    unfolding s by simp
  have ns: "\<not> isSpace 0" by (simp add: isSpace_def)
  have t: "trim ?s = ?s"
    unfolding trim_def
    by (subst (1 2) s', simp only: dropWhile.simps ns if_False, fold s', subst rs,
        simp only: dropWhile.simps ns if_False, fold rs, simp)
  have n1: "\<not> startsWith ?s (lit ''facet normal'')"
    unfolding s' by (simp add: startsWith_def lit_def)
  have n2: "\<not> startsWith ?s (lit ''vertex'')"
    unfolding s' by (simp add: startsWith_def lit_def)
  show ?thesis
    by (simp add: parseASCII_def Let_def lines t n1 n2 del: splitLines.simps)
qed

section \<open>The loader: the round trip of a fixed-record stream\<close>

lemma record_encodeSTL:
  assumes h: "length header = 80" and wf: "\<forall>f \<in> set fs. wellFormedFacet f"
    and k: "k < length fs"
  shows "recordVertices pf (encodeSTL header fs) k = map (float32 pf) (vertexBits (fs ! k))"
    and "recordNormals pf (encodeSTL header fs) k =
         map (float32 pf) (normalBits (fs ! k) @ normalBits (fs ! k) @ normalBits (fs ! k))"
proof -
  from wf k have "wellFormedFacet (fs ! k)" by simp
  then obtain n0 n1 n2 v0 v1 v2 v3 v4 v5 v6 v7 v8 where
    n: "normalBits (fs ! k) = [n0, n1, n2]" and
    v: "vertexBits (fs ! k) = [v0, v1, v2, v3, v4, v5, v6, v7, v8]"
    by (auto simp: wellFormedFacet_def length_Suc_conv numeral_eq_Suc)
  have r: "recordFloat pf (encodeSTL header fs) k j =
           float32 pf ([n0, n1, n2, v0, v1, v2, v3, v4, v5, v6, v7, v8] ! j)" if "j < 12" for j
    using recordFloat_encodeSTL [OF h wf k that, of pf] by (simp add: n v)
  show "recordVertices pf (encodeSTL header fs) k = map (float32 pf) (vertexBits (fs ! k))"
    by (simp add: recordVertices_def r v)
  show "recordNormals pf (encodeSTL header fs) k =
        map (float32 pf) (normalBits (fs ! k) @ normalBits (fs ! k) @ normalBits (fs ! k))"
    by (simp add: recordNormals_def r n)
qed

lemma map_upt_nth: "map (\<lambda>k. F (fs ! k)) [0..<length fs] = map F fs"
  by (rule nth_equalityI) simp_all

lemma load_encodeSTL:
  assumes h: "length header = 80" and wf: "\<forall>f \<in> set fs. wellFormedFacet f"
    and n: "length fs < 2 ^ 32"
  shows "parseBinary pf (encodeSTL header fs) =
           Inr \<lparr>positions = concat (map (\<lambda>f. map (float32 pf) (vertexBits f)) fs),
                normals = concat (map (\<lambda>f. map (float32 pf)
                                    (normalBits f @ normalBits f @ normalBits f)) fs),
                boundingBox = None\<rparr>"
    and "load pf (encodeSTL header fs) =
           Inr (postLoad pf
             \<lparr>positions = concat (map (\<lambda>f. map (float32 pf) (vertexBits f)) fs),
              normals = concat (map (\<lambda>f. map (float32 pf)
                                  (normalBits f @ normalBits f @ normalBits f)) fs),
              boundingBox = None\<rparr>)"
proof -
  let ?b = "encodeSTL header fs"
  have c: "declaredCount ?b = length fs" by (rule declaredCount_encodeSTL [OF h n])
  have len: "length ?b = 84 + declaredCount ?b * 50"
    by (simp add: length_encodeSTL [OF wf] h c)
  have v: "map (recordVertices pf ?b) [0..<length fs] =
           map (\<lambda>k. map (float32 pf) (vertexBits (fs ! k))) [0..<length fs]"
    by (rule map_cong) (simp_all add: record_encodeSTL [OF h wf])
  have nr: "map (recordNormals pf ?b) [0..<length fs] =
           map (\<lambda>k. map (float32 pf) (normalBits (fs ! k) @ normalBits (fs ! k) @
                                          normalBits (fs ! k))) [0..<length fs]"
    by (rule map_cong) (simp_all add: record_encodeSTL [OF h wf])
  have v': "map (recordVertices pf ?b) [0..<length fs] =
            map (\<lambda>f. map (float32 pf) (vertexBits f)) fs"
    unfolding v by (rule map_upt_nth)
  have nr': "map (recordNormals pf ?b) [0..<length fs] =
             map (\<lambda>f. map (float32 pf) (normalBits f @ normalBits f @ normalBits f)) fs"
    unfolding nr by (rule map_upt_nth)
  from len have r: "84 + 50 * declaredCount ?b \<le> length ?b" by simp
  show "parseBinary pf ?b =
           Inr \<lparr>positions = concat (map (\<lambda>f. map (float32 pf) (vertexBits f)) fs),
                normals = concat (map (\<lambda>f. map (float32 pf)
                                    (normalBits f @ normalBits f @ normalBits f)) fs),
                boundingBox = None\<rparr>"
    unfolding parseBinary_closed [OF r] c v' nr' ..
  show "load pf ?b =
           Inr (postLoad pf
             \<lparr>positions = concat (map (\<lambda>f. map (float32 pf) (vertexBits f)) fs),
              normals = concat (map (\<lambda>f. map (float32 pf)
                                  (normalBits f @ normalBits f @ normalBits f)) fs),
              boundingBox = None\<rparr>)"
    unfolding load_binary [OF len] c v' nr' ..
qed

lemma length_vertex_floats:
  "\<forall>f \<in> set fs. wellFormedFacet f \<Longrightarrow>
   length (concat (map (\<lambda>f. map F (vertexBits f)) fs)) = 9 * length fs"
  by (induction fs) (simp_all add: wellFormedFacet_def)

lemma postLoad_contract:
  assumes "three_contract pf"
  shows "positions (postLoad pf g) = positions g"
    and "normals (postLoad pf g) = normals (computeVertexNormals pf g)"
    and "positions g \<noteq> [] \<Longrightarrow> boundingBox (postLoad pf g) = Some (boundsOf (positions g))"
  using assms by (simp_all add: three_contract_def postLoad_def)

section \<open>The exporter: the loops in closed form\<close>















section \<open>The claims about the generator\<close>

text \<open>
  C1. The surface query casts one ray downward from \<open>(x, y, ceilingZ + 100)\<close>, the sum
  as the double addition gives it, and walks the intersections in the order the ray
  caster returns them (increasing distance). It returns the height of the first
  intersection whose height lies in the closed interval from the floor (the minimum Z
  of the selection) to the ceiling, and nothing exactly when no intersection has its
  height in that interval.
\<close>

theorem findSurfaceAtPoint_first_in_range:
  "(findSurfaceAtPoint rnd rc g x y ceilingZ = None \<longleftrightarrow>
      (\<forall>h \<in> set (rc (mesh g) \<lparr>vx = x, vy = y, vz = fadd rnd ceilingZ 100\<rparr>
                     \<lparr>vx = 0, vy = 0, vz = - 1\<rparr>).
         \<not> (vz (box_min (bounds g)) \<le> vz (point h) \<and> vz (point h) \<le> ceilingZ))) \<and>
   (findSurfaceAtPoint rnd rc g x y ceilingZ = Some s \<longleftrightarrow>
      (\<exists>i < length (rc (mesh g) \<lparr>vx = x, vy = y, vz = fadd rnd ceilingZ 100\<rparr>
                       \<lparr>vx = 0, vy = 0, vz = - 1\<rparr>).
         s = vz (point (rc (mesh g) \<lparr>vx = x, vy = y, vz = fadd rnd ceilingZ 100\<rparr>
                          \<lparr>vx = 0, vy = 0, vz = - 1\<rparr> ! i)) \<and>
         vz (box_min (bounds g)) \<le> s \<and> s \<le> ceilingZ \<and>
         (\<forall>j < i. \<not> (vz (box_min (bounds g)) \<le>
                         vz (point (rc (mesh g) \<lparr>vx = x, vy = y, vz = fadd rnd ceilingZ 100\<rparr>
                                      \<lparr>vx = 0, vy = 0, vz = - 1\<rparr> ! j)) \<and>
                       vz (point (rc (mesh g) \<lparr>vx = x, vy = y, vz = fadd rnd ceilingZ 100\<rparr>
                                      \<lparr>vx = 0, vy = 0, vz = - 1\<rparr> ! j)) \<le> ceilingZ))))"
proof (cases "rc (mesh g) \<lparr>vx = x, vy = y, vz = fadd rnd ceilingZ 100\<rparr>
                \<lparr>vx = 0, vy = 0, vz = - 1\<rparr>")
  case Nil
  then show ?thesis by (simp add: findSurfaceAtPoint_def)
next
  case (Cons h hs)
  then have "findSurfaceAtPoint rnd rc g x y ceilingZ =
             firstHitWithin ceilingZ (vz (box_min (bounds g)))
               (rc (mesh g) \<lparr>vx = x, vy = y, vz = fadd rnd ceilingZ 100\<rparr>
                  \<lparr>vx = 0, vy = 0, vz = - 1\<rparr>)"
    by (simp add: findSurfaceAtPoint_def)
  then show ?thesis
    by (simp only: firstHitWithin_None firstHitWithin_Some)
qed

text \<open>
  C1, witness: over planes at heights 1.5, 0.7 and 0.2, with the ceiling 1 and the floor
  0, the query skips the plane above the ceiling and returns 0.7, not the lower 0.2;
  over the single plane at 1.5 it returns nothing.
\<close>

theorem findSurfaceAtPoint_first_in_range_witness:
  "findSurfaceAtPoint noRounding planeRaycaster
     (exampleGenerator\<lparr>mesh := [3 / 2, 7 / 10, 1 / 5]\<rparr>) 0 0 1 = Some (7 / 10) \<and>
   findSurfaceAtPoint noRounding planeRaycaster (exampleGenerator\<lparr>mesh := [3 / 2]\<rparr>) 0 0 1
     = None"
proof
  show "findSurfaceAtPoint noRounding planeRaycaster
          (exampleGenerator\<lparr>mesh := [3 / 2, 7 / 10, 1 / 5]\<rparr>) 0 0 1 = Some (7 / 10)"
    by (rule iffD2 [OF findSurfaceAtPoint_first_in_range [THEN conjunct2]],
        rule exI [of _ 1])
       (simp add: planeRaycaster_def exampleGenerator_def exampleBounds_def no_rounding)
  show "findSurfaceAtPoint noRounding planeRaycaster (exampleGenerator\<lparr>mesh := [3 / 2]\<rparr>) 0 0 1
          = None"
    by (rule iffD2 [OF findSurfaceAtPoint_first_in_range [THEN conjunct1]])
       (simp add: planeRaycaster_def exampleGenerator_def exampleBounds_def no_rounding)
qed

lemma length_filter_eq_all:
  "(length (filter P xs) = length xs) = (\<forall>x \<in> set xs. P x)"
proof (induction xs)
  case Nil
  show ?case by simp
next
  case (Cons a xs)
  have le: "length (filter P xs) \<le> length xs" by simp
  show ?case
  proof (cases "P a")
    case True
    with Cons show ?thesis by simp
  next
    case False
    from le have "length (filter P xs) \<noteq> Suc (length xs)" by linarith
    with False show ?thesis by simp
  qed
qed

text \<open>
  C2, as the code has it. With \<open>E\<close> the difference \<open>max.z - min.z\<close> and \<open>E / s\<close> its
  quotient by the stepdown, both as the double operations give them, the generator runs
  the layer iterations \<open>k = 0, ..., ceil(E / s) - 1\<close>, and iteration \<open>k\<close> has the
  target plane \<open>max (max.z - k * s) min.z\<close>, product and difference again those of the
  doubles. An iteration appends a layer only when its contour has a point, so the path
  has at most \<open>ceil(E / s)\<close> layers, exactly that many when no contour is empty, and
  every appended layer carries the index and the plane of its iteration, which is never
  below the minimum Z.
\<close>

theorem generate_layer_planes:
  assumes "valid_params rnd (gparams g0)"
  shows "length (toolpath (generate rnd rc g0 m b)) \<le>
           nat \<lceil>fdiv rnd (fsub rnd (vz (box_max b)) (vz (box_min b))) (stepdown (gparams g0))\<rceil> \<and>
         (length (toolpath (generate rnd rc g0 m b)) =
            nat \<lceil>fdiv rnd (fsub rnd (vz (box_max b)) (vz (box_min b)))
                   (stepdown (gparams g0))\<rceil> \<longleftrightarrow>
          (\<forall>k < nat \<lceil>fdiv rnd (fsub rnd (vz (box_max b)) (vz (box_min b)))
                         (stepdown (gparams g0))\<rceil>.
             layerContour rnd rc (gparams g0) m b k \<noteq> [])) \<and>
         (\<forall>l \<in> set (toolpath (generate rnd rc g0 m b)).
             int (layer l) < \<lceil>fdiv rnd (fsub rnd (vz (box_max b)) (vz (box_min b)))
                                (stepdown (gparams g0))\<rceil> \<and>
             layer_z l = max (fsub rnd (vz (box_max b))
                                (fmul rnd (real (layer l)) (stepdown (gparams g0))))
                             (vz (box_min b)) \<and>
             vz (box_min b) \<le> layer_z l)"
proof -
  let ?n = "nat \<lceil>fdiv rnd (fsub rnd (vz (box_max b)) (vz (box_min b)))
                   (stepdown (gparams g0))\<rceil>"
  let ?P = "\<lambda>k. layerContour rnd rc (gparams g0) m b k \<noteq> []"
  have len: "length (toolpath (generate rnd rc g0 m b)) = length (filter ?P [0..<?n])"
    by (simp add: generate_closed numLayersOf_def)
  have le: "length (filter ?P [0..<?n]) \<le> ?n"
    using length_filter_le [of ?P "[0..<?n]"] by simp
  have "length (filter ?P [0..<?n]) = length [0..<?n] \<longleftrightarrow> (\<forall>k \<in> set [0..<?n]. ?P k)"
    by (rule length_filter_eq_all)
  then have eq: "length (filter ?P [0..<?n]) = ?n \<longleftrightarrow> (\<forall>k < ?n. ?P k)"
    by auto
  have each: "int (layer l) < \<lceil>fdiv rnd (fsub rnd (vz (box_max b)) (vz (box_min b)))
                                (stepdown (gparams g0))\<rceil> \<and>
              layer_z l = max (fsub rnd (vz (box_max b))
                                (fmul rnd (real (layer l)) (stepdown (gparams g0))))
                              (vz (box_min b)) \<and>
              vz (box_min b) \<le> layer_z l"
    if "l \<in> set (toolpath (generate rnd rc g0 m b))" for l
  proof -
    from generate_layer [OF that]
    have lt: "layer l < ?n"
      and z: "layer_z l = max (fsub rnd (vz (box_max b))
                                (fmul rnd (real (layer l)) (stepdown (gparams g0))))
                              (vz (box_min b))"
      by (simp_all add: numLayersOf_def layerPlane_def)
    from lt have "int (layer l) < \<lceil>fdiv rnd (fsub rnd (vz (box_max b)) (vz (box_min b)))
                                      (stepdown (gparams g0))\<rceil>"
      by linarith
    with z show ?thesis by simp
  qed
  from len le eq each show ?thesis by simp
qed

text \<open>
  C2, witness: the run on one plane at height 0.7 has valid parameters, stays within
  the two iterations and gives its first layer the plane of iteration 0.
\<close>

theorem generate_layer_planes_witness:
  "valid_params noRounding (gparams exampleGenerator) \<and>
   length (toolpath (generate noRounding planeRaycaster exampleGenerator [7 / 10] exampleBounds))
     \<le> nat \<lceil>fdiv noRounding
               (fsub noRounding (vz (box_max exampleBounds)) (vz (box_min exampleBounds)))
               (stepdown (gparams exampleGenerator))\<rceil> \<and>
   layer_z (hd (toolpath (generate noRounding planeRaycaster exampleGenerator [7 / 10]
                  exampleBounds))) =
     max (fsub noRounding (vz (box_max exampleBounds))
            (fmul noRounding (real 0) (stepdown (gparams exampleGenerator))))
         (vz (box_min exampleBounds))"
  using generate_layer_planes [OF example_valid, of planeRaycaster "[7 / 10]" exampleBounds]
  unfolding example_run
  by (simp add: example_valid)

text \<open>
  C2, counterexample: for the Z-extent 1 and the stepdown 0.5, numbers that the doubles
  hold exactly, the path of that run has one layer, not two, and its last layer lies at
  height 1, not at the minimum Z 0.
\<close>

theorem generate_layer_planes_counterexample:
  "length (toolpath (generate noRounding planeRaycaster exampleGenerator [7 / 10] exampleBounds))
     \<noteq> nat \<lceil>fdiv noRounding
               (fsub noRounding (vz (box_max exampleBounds)) (vz (box_min exampleBounds)))
               (stepdown (gparams exampleGenerator))\<rceil> \<and>
   layer_z (last (toolpath (generate noRounding planeRaycaster exampleGenerator [7 / 10]
                    exampleBounds))) \<noteq> vz (box_min exampleBounds)"
  unfolding example_run
  by (simp add: example_params example_box exampleParams_def no_rounding)

text \<open>
  C3, as the code has it. A layer iteration whose contour has no point appends nothing:
  the index fields of the appended layers are, in order, exactly those of the
  iterations that the loop runs whose contour is not empty, and every appended layer
  holds the non-empty contour of its iteration.
\<close>

theorem generate_skips_empty_layers:
  assumes "valid_params rnd (gparams g0)"
  shows "map layer (toolpath (generate rnd rc g0 m b)) =
           filter (\<lambda>k. layerContour rnd rc (gparams g0) m b k \<noteq> [])
             [0..<nat (numLayersOf rnd (gparams g0) b)] \<and>
         (\<forall>l \<in> set (toolpath (generate rnd rc g0 m b)).
            points l = layerContour rnd rc (gparams g0) m b (layer l) \<and> points l \<noteq> [])"
proof -
  have "map layer (toolpath (generate rnd rc g0 m b)) =
        filter (\<lambda>k. layerContour rnd rc (gparams g0) m b k \<noteq> [])
          [0..<nat (numLayersOf rnd (gparams g0) b)]"
    by (simp add: generate_closed comp_def)
  moreover have "points l = layerContour rnd rc (gparams g0) m b (layer l) \<and> points l \<noteq> []"
    if "l \<in> set (toolpath (generate rnd rc g0 m b))" for l
    using generate_layer [OF that] by auto
  ultimately show ?thesis by blast
qed

text \<open>
  C3, witness: in the run on one plane at height 0.7 only iteration 0 has points, and
  the path has the single index 0.
\<close>

theorem generate_skips_empty_layers_witness:
  "valid_params noRounding (gparams exampleGenerator) \<and>
   map layer (toolpath (generate noRounding planeRaycaster exampleGenerator [7 / 10]
                exampleBounds)) = [0] \<and>
   filter (\<lambda>k. layerContour noRounding planeRaycaster (gparams exampleGenerator) [7 / 10]
                 exampleBounds k \<noteq> [])
     [0..<nat (numLayersOf noRounding (gparams exampleGenerator) exampleBounds)] = [0]"
  using generate_skips_empty_layers
          [OF example_valid, of planeRaycaster "[7 / 10]" exampleBounds]
  unfolding example_run
  by (simp add: example_valid)

text \<open>
  C3, counterexample: in that run iteration 1 yields no point and no layer is appended
  for it, so the indices of the path are not \<open>0, 1\<close>.
\<close>

theorem generate_skips_empty_layers_counterexample:
  "layerContour noRounding planeRaycaster (gparams exampleGenerator) [7 / 10] exampleBounds 1
     = [] \<and>
   map layer (toolpath (generate noRounding planeRaycaster exampleGenerator [7 / 10]
                exampleBounds)) \<noteq>
     [0..<nat (numLayersOf noRounding (gparams exampleGenerator) exampleBounds)]"
  by (simp add: example_params example_contour_1 [unfolded One_nat_def] example_run
      example_numLayers upt_0_2)

lemma example_layer_mem:
  "hd (toolpath (generate noRounding planeRaycaster exampleGenerator [7 / 10] exampleBounds)) \<in>
   set (toolpath (generate noRounding planeRaycaster exampleGenerator [7 / 10] exampleBounds))"
  by (simp add: example_run)

lemma example_point_mem:
  "hd (points (hd (toolpath (generate noRounding planeRaycaster exampleGenerator [7 / 10]
                     exampleBounds)))) \<in>
   set (points (hd (toolpath (generate noRounding planeRaycaster exampleGenerator [7 / 10]
                     exampleBounds))))"
  by (simp add: example_run)

text \<open>
  C4, as the code has it. Every point of every layer has its \<open>x\<close> and \<open>y\<close> within
  the selection, bounds included. The bounds test is made on the surface point: the
  surface query at \<open>(x, y)\<close> under the plane of the layer returns a height \<open>s\<close> between
  the minimum and the maximum Z of the selection and at or below that plane, and the
  emitted height is the double sum of \<open>s\<close> and the tool radius, itself the double
  quotient of the tool diameter by 2.
\<close>

theorem generate_points_in_bounds:
  assumes "valid_params rnd (gparams g0)"
    and "l \<in> set (toolpath (generate rnd rc g0 m b))"
    and "p \<in> set (points l)"
  shows "vx (box_min b) \<le> vx p \<and> vx p \<le> vx (box_max b) \<and>
         vy (box_min b) \<le> vy p \<and> vy p \<le> vy (box_max b) \<and>
         (\<exists>s. findSurfaceAtPoint rnd rc (runInstance (gparams g0) m b) (vx p) (vy p) (layer_z l)
                 = Some s \<and>
              vz p = fadd rnd s (fdiv rnd (toolDiameter (gparams g0)) 2) \<and>
              vz (box_min b) \<le> s \<and> s \<le> vz (box_max b) \<and> s \<le> layer_z l)"
proof -
  from generate_layer [OF assms(2)]
  have z: "layer_z l = layerPlane rnd (gparams g0) b (layer l)"
    and pts: "points l = layerContour rnd rc (gparams g0) m b (layer l)"
    by simp_all
  from assms(3) pts layerContour_closed [of rnd rc "gparams g0" m b "layer l"]
  obtain j where "p \<in> set (layerRow rnd rc (gparams g0) m b (layer l) j)"
    by (auto split: if_splits)
  then have "p \<in> set (scanLine rnd rc (runInstance (gparams g0) m b)
       (vx (box_min b)) (vx (box_max b)) (rowY rnd (gparams g0) b j)
       (layer_z l) (fdiv rnd (toolDiameter (gparams g0)) 2))"
    by (simp add: layerRow_def z toolRadiusOf_def)
  from scanLine_point [OF this] show ?thesis by (auto simp: runInstance_def)
qed

text \<open>
  C4, witness: the first point of the run on one plane at height 0.7; the surface
  query returns 0.7 there and the point has the height 0.7 + 0.5.
\<close>

theorem generate_points_in_bounds_witness:
  "valid_params noRounding (gparams exampleGenerator) \<and>
   vx (hd (points (hd (toolpath (generate noRounding planeRaycaster exampleGenerator [7 / 10]
                          exampleBounds))))) \<le> vx (box_max exampleBounds) \<and>
   findSurfaceAtPoint noRounding planeRaycaster
     (runInstance (gparams exampleGenerator) [7 / 10] exampleBounds) 0 0 1 = Some (7 / 10) \<and>
   vz (hd (points (hd (toolpath (generate noRounding planeRaycaster exampleGenerator [7 / 10]
                          exampleBounds))))) =
     fadd noRounding (7 / 10) (fdiv noRounding (toolDiameter (gparams exampleGenerator)) 2)"
proof -
  have s: "findSurfaceAtPoint noRounding planeRaycaster
             (runInstance (gparams exampleGenerator) [7 / 10] exampleBounds) 0 0 1 =
           Some (7 / 10)"
    unfolding example_params by (rule example_surface_top)
  from generate_points_in_bounds [OF example_valid example_layer_mem example_point_mem]
  show ?thesis
    unfolding example_run s
    by (simp add: example_valid) (simp add: example_params exampleParams_def no_rounding)
qed

text \<open>
  C4, counterexample: that point belongs to a layer of the path and its height 1.2 is
  above the maximum Z 1 of the selection.
\<close>

theorem generate_points_in_bounds_counterexample:
  "hd (toolpath (generate noRounding planeRaycaster exampleGenerator [7 / 10] exampleBounds)) \<in>
     set (toolpath (generate noRounding planeRaycaster exampleGenerator [7 / 10]
            exampleBounds)) \<and>
   hd (points (hd (toolpath (generate noRounding planeRaycaster exampleGenerator [7 / 10]
                      exampleBounds)))) \<in>
     set (points (hd (toolpath (generate noRounding planeRaycaster exampleGenerator [7 / 10]
                      exampleBounds)))) \<and>
   \<not> vz (hd (points (hd (toolpath (generate noRounding planeRaycaster exampleGenerator [7 / 10]
              exampleBounds))))) \<le> vz (box_max exampleBounds)"
  unfolding example_run
  by (simp add: example_box)

text \<open>
  C5. The points of every generated layer are its rows in Y-step order, up to the row
  at which the loop stops, a row with an even Y-step index as \<open>scanLine\<close> returned it
  and a row with an odd index reversed. With a monotone rounding a row as scanned has
  its \<open>x\<close> in ascending order (two scan positions may round to the same double), so a
  reversed row has them in descending order.
\<close>

theorem generate_rows_zigzag:
  assumes "valid_params rnd (gparams g0)"
    and "l \<in> set (toolpath (generate rnd rc g0 m b))"
  shows "points l =
           concat (map (\<lambda>j. if even j then layerRow rnd rc (gparams g0) m b (layer l) j
                             else rev (layerRow rnd rc (gparams g0) m b (layer l) j))
                    [0..<layerRows rnd (gparams g0) b]) \<and>
         (monotone_rounding rnd \<longrightarrow>
            (\<forall>j. sorted (map vx (layerRow rnd rc (gparams g0) m b (layer l) j)) \<and>
                 sorted_wrt (\<ge>) (map vx (rev (layerRow rnd rc (gparams g0) m b (layer l) j)))))"
proof -
  from generate_layer [OF assms(2)]
  have pts: "points l = layerContour rnd rc (gparams g0) m b (layer l)" by simp
  have flip: "(\<lambda>j. if j mod 2 = 1 then rev (layerRow rnd rc (gparams g0) m b (layer l) j)
                    else layerRow rnd rc (gparams g0) m b (layer l) j) =
              (\<lambda>j. if even j then layerRow rnd rc (gparams g0) m b (layer l) j
                    else rev (layerRow rnd rc (gparams g0) m b (layer l) j))"
    by (rule ext) (simp add: odd_iff_mod_2_eq_one)
  have order: "points l =
           concat (map (\<lambda>j. if even j then layerRow rnd rc (gparams g0) m b (layer l) j
                             else rev (layerRow rnd rc (gparams g0) m b (layer l) j))
                    [0..<layerRows rnd (gparams g0) b])"
    unfolding pts layerContour_closed flip ..
  from assms(1) have d: "0 \<le> fmul rnd (toolDiameter (gparams g0)) (rnd (2 / 10))"
    by (simp add: valid_params_def)
  have inc: "sorted (map vx (layerRow rnd rc (gparams g0) m b (layer l) j))"
    if "monotone_rounding rnd" for j
  proof -
    have "0 \<le> fmul rnd (toolDiameter (gparams (runInstance (gparams g0) m b))) (rnd (2 / 10))"
      unfolding runInstance_def using d by simp
    from scanLine_nondecreasing [OF that this] show ?thesis
      unfolding layerRow_def .
  qed
  have dec: "sorted_wrt (\<ge>) (map vx (rev (layerRow rnd rc (gparams g0) m b (layer l) j)))"
    if "monotone_rounding rnd" for j
    using inc [OF that, of j] by (simp add: rev_map [symmetric] sorted_wrt_rev)
  from order inc dec show ?thesis by blast
qed

text \<open>
  C5, witness: the layer of the run on one plane at height 0.7 is row 0 as scanned
  followed by row 1 reversed.
\<close>

theorem generate_rows_zigzag_witness:
  "valid_params noRounding (gparams exampleGenerator) \<and> monotone_rounding noRounding \<and>
   points (hd (toolpath (generate noRounding planeRaycaster exampleGenerator [7 / 10]
                 exampleBounds))) =
     layerRow noRounding planeRaycaster (gparams exampleGenerator) [7 / 10] exampleBounds 0 0 @
     rev (layerRow noRounding planeRaycaster (gparams exampleGenerator) [7 / 10] exampleBounds
            0 1) \<and>
   sorted (map vx
     (layerRow noRounding planeRaycaster (gparams exampleGenerator) [7 / 10] exampleBounds 0 0))"
proof -
  have n: "layerRows noRounding (gparams exampleGenerator) exampleBounds = 2"
    by (simp add: example_params example_layerRows)
  have l: "layer (hd (toolpath (generate noRounding planeRaycaster exampleGenerator [7 / 10]
                         exampleBounds))) = 0"
    by (simp add: example_run)
  from generate_rows_zigzag [OF example_valid example_layer_mem]
  show ?thesis
    unfolding n l upt_0_2 by (simp add: example_valid noRounding_monotone)
qed

section \<open>The claims about the loader\<close>

lemma ieee_values: "ieeeSingle 0 = 0" "ieeeSingle 0x3F800000 = 1"
  by (simp_all add: ieeeSingle_def Let_def)

lemma exampleFacet_wf: "\<forall>f \<in> set [exampleFacet]. wellFormedFacet f"
  by (simp add: wellFormedFacet_def exampleFacet_def)

lemma exampleHeader_length: "length exampleHeader = 80"
  by (simp add: exampleHeader_def)

lemma example_facet_values:
  "facetPositions examplePlatform [exampleFacet] = [0, 0, 0, 1, 0, 0, 0, 1, 0]"
  "facetNormals examplePlatform [exampleFacet] = [0, 0, 0, 0, 0, 0, 0, 0, 0]"
  by (simp_all add: facetPositions_def facetNormals_def exampleFacet_def examplePlatform_def
      ieee_values)

lemma faceNormals_example:
  "faceNormals [0, 0, 0, 1, 0, 0, 0, 1, 0] = [0, 0, 1, 0, 0, 1, 0, 0, 1]"
proof -
  have e: "faceNormals [] = []" by (subst faceNormals.simps) simp
  show ?thesis by (subst faceNormals.simps) (simp add: e Let_def)
qed

lemma upt_0_3: "[0..<3] = [0, 1, 2]"
  by (simp add: upt_rec numeral_3_eq_3)

lemma boundsOf_example:
  "boundsOf [0, 0, 0, 1, 0, 0, 0, 1, 0] =
   \<lparr>box_min = \<lparr>vx = 0, vy = 0, vz = 0\<rparr>, box_max = \<lparr>vx = 1, vy = 1, vz = 0\<rparr>\<rparr>"
  by (simp add: boundsOf_def coordinates_def upt_0_3)

lemma example_load:
  "load examplePlatform (encodeSTL exampleHeader [exampleFacet]) =
   Inr \<lparr>positions = [0, 0, 0, 1, 0, 0, 0, 1, 0], normals = [0, 0, 1, 0, 0, 1, 0, 0, 1],
        boundingBox = Some \<lparr>box_min = \<lparr>vx = 0, vy = 0, vz = 0\<rparr>,
                             box_max = \<lparr>vx = 1, vy = 1, vz = 0\<rparr>\<rparr>\<rparr>"
proof -
  have "load examplePlatform (encodeSTL exampleHeader [exampleFacet]) =
        Inr (postLoad examplePlatform
          \<lparr>positions = facetPositions examplePlatform [exampleFacet],
           normals = facetNormals examplePlatform [exampleFacet], boundingBox = None\<rparr>)"
    unfolding facetPositions_def facetNormals_def
    by (rule load_encodeSTL(2) [OF exampleHeader_length exampleFacet_wf]) simp
  also have "\<dots> = Inr \<lparr>positions = [0, 0, 0, 1, 0, 0, 0, 1, 0],
        normals = [0, 0, 1, 0, 0, 1, 0, 0, 1],
        boundingBox = Some \<lparr>box_min = \<lparr>vx = 0, vy = 0, vz = 0\<rparr>,
                             box_max = \<lparr>vx = 1, vy = 1, vz = 0\<rparr>\<rparr>\<rparr>"
    unfolding example_facet_values
    by (simp add: postLoad_def examplePlatform_def threeVertexNormals_def threeBoundingBox_def
        faceNormals_example boundsOf_example)
  finally show ?thesis .
qed

text \<open>
  C10. On a buffer of fewer than 84 bytes, the empty one included, the read of the
  triangle count at offset 80 throws a \<open>RangeError\<close>, and so do \<open>isBinarySTL\<close> and
  \<open>load\<close>: the stream is classified as neither encoding and no mesh is returned.
\<close>

theorem load_short_buffer_throws:
  "length buffer < 84 \<Longrightarrow>
   getUint32 buffer 80 = Inl RangeError \<and> isBinarySTL buffer = Inl RangeError \<and>
   load pf buffer = Inl RangeError"
  by (simp add: load_short isBinarySTL_short getUint32_def)

text \<open>C10, witness: the empty buffer.\<close>

theorem load_short_buffer_throws_witness:
  "length ([] :: byte list) < 84 \<and> isBinarySTL [] = Inl RangeError \<and>
   load examplePlatform [] = Inl RangeError"
  using load_short_buffer_throws [of "[]" examplePlatform] by simp

text \<open>
  C7, as the code has it. A stream of at least 84 bytes is classified as the
  fixed-record encoding exactly when its length is \<open>84 + count * 50\<close>, where \<open>count\<close>
  is the little-endian 32-bit integer at offset 80; then \<open>load\<close> returns what
  \<open>parseBinary\<close> yields, after the three methods of three.js, and for any other length
  what \<open>parseASCII\<close> yields.
\<close>

theorem load_classification:
  "84 \<le> length buffer \<Longrightarrow>
   isBinarySTL buffer = Inr (length buffer = 84 + declaredCount buffer * 50) \<and>
   (length buffer = 84 + declaredCount buffer * 50 \<longrightarrow>
      (\<exists>g. parseBinary pf buffer = Inr g \<and> load pf buffer = Inr (postLoad pf g))) \<and>
   (length buffer \<noteq> 84 + declaredCount buffer * 50 \<longrightarrow>
      load pf buffer = Inr (postLoad pf (parseASCII pf buffer)))"
proof (intro conjI impI)
  assume l: "84 \<le> length buffer"
  show "isBinarySTL buffer = Inr (length buffer = 84 + declaredCount buffer * 50)"
    by (rule isBinarySTL_long [OF l])
  show "load pf buffer = Inr (postLoad pf (parseASCII pf buffer))"
    if "length buffer \<noteq> 84 + declaredCount buffer * 50"
    by (rule load_textual [OF l that])
  show "\<exists>g. parseBinary pf buffer = Inr g \<and> load pf buffer = Inr (postLoad pf g)"
    if e: "length buffer = 84 + declaredCount buffer * 50"
  proof -
    from e have "84 + 50 * declaredCount buffer \<le> length buffer" by simp
    from parseBinary_closed [OF this, of pf] load_binary [OF e, of pf]
    show ?thesis by simp
  qed
qed

text \<open>
  C7, witness: the stream of 84 bytes that declares one triangle is classified as
  textual and parsed by \<open>parseASCII\<close>.
\<close>

theorem load_classification_witness:
  "84 \<le> length truncatedStream \<and>
   isBinarySTL truncatedStream = Inr False \<and>
   load examplePlatform truncatedStream =
     Inr (postLoad examplePlatform (parseASCII examplePlatform truncatedStream))"
  using load_classification [of truncatedStream examplePlatform]
  by (simp add: truncated_length truncated_count)

text \<open>
  C7, counterexample: the textual stream \<open>solid empty\<close> has 11 bytes, a length that is
  \<open>84 + count * 50\<close> for no count, and it is not parsed as textual: the classification
  throws.
\<close>

theorem load_classification_counterexample:
  "length shortTextStream = 11 \<and> isBinarySTL shortTextStream = Inl RangeError \<and>
   load examplePlatform shortTextStream = Inl RangeError"
proof -
  have l: "length shortTextStream = 11" by (simp add: shortTextStream_def bytesOfString_def)
  then have "length shortTextStream < 84" by simp
  with l show ?thesis by (simp add: isBinarySTL_short load_short)
qed

text \<open>
  C6, as the code has it. A stream of at least 84 bytes that is shorter than the
  \<open>84 + count * 50\<close> bytes its header declares does not make \<open>load\<close> fail: the
  stream is parsed as textual and a mesh is returned. The only failure of \<open>load\<close> is
  the \<open>RangeError\<close> on a stream of fewer than 84 bytes.
\<close>

theorem load_truncated_stream:
  "(84 \<le> length buffer \<and> length buffer < 84 + declaredCount buffer * 50 \<longrightarrow>
      load pf buffer = Inr (postLoad pf (parseASCII pf buffer))) \<and>
   (load pf buffer = Inl e \<longleftrightarrow> e = RangeError \<and> length buffer < 84)"
proof (intro conjI impI)
  assume "84 \<le> length buffer \<and> length buffer < 84 + declaredCount buffer * 50"
  then show "load pf buffer = Inr (postLoad pf (parseASCII pf buffer))"
    by (intro load_textual) simp_all
next
  show "load pf buffer = Inl e \<longleftrightarrow> e = RangeError \<and> length buffer < 84"
  proof (cases "length buffer < 84")
    case True
    then show ?thesis by (auto simp: load_short)
  next
    case False
    then have l: "84 \<le> length buffer" by simp
    have "\<exists>g. load pf buffer = Inr g"
    proof (cases "length buffer = 84 + declaredCount buffer * 50")
      case True
      from load_binary [OF this, of pf] show ?thesis by simp
    next
      case False
      from load_textual [OF l this, of pf] show ?thesis by simp
    qed
    with False show ?thesis by auto
  qed
qed

text \<open>
  C6, witness: the stream of 84 bytes that declares one triangle.
\<close>

theorem load_truncated_stream_witness:
  "84 \<le> length truncatedStream \<and>
   length truncatedStream < 84 + declaredCount truncatedStream * 50 \<and>
   load examplePlatform truncatedStream =
     Inr (postLoad examplePlatform (parseASCII examplePlatform truncatedStream)) \<and>
   load examplePlatform truncatedStream \<noteq> Inl RangeError"
  using load_truncated_stream [of truncatedStream examplePlatform RangeError]
  by (simp add: truncated_length truncated_count)

text \<open>
  C6, counterexample: that stream declares one triangle, which needs 134 bytes, has 84,
  and \<open>load\<close> returns the mesh without vertices that \<open>parseASCII\<close> builds from it.
\<close>

theorem load_truncated_stream_counterexample:
  "declaredCount truncatedStream = 1 \<and> length truncatedStream = 84 \<and>
   load examplePlatform truncatedStream =
     Inr (postLoad examplePlatform \<lparr>positions = [], normals = [], boundingBox = None\<rparr>)"
proof -
  have "length truncatedStream \<noteq> 84 + declaredCount truncatedStream * 50"
    by (simp add: truncated_length truncated_count)
  from load_textual [OF _ this, of examplePlatform]
  show ?thesis by (simp add: truncated_length truncated_count truncated_text)
qed

text \<open>
  C8, as the code has it. For any number of facets given by their bit patterns,
  \<open>parseBinary\<close> on the encoded stream yields exactly their vertices in order and, in the
  normals buffer, the normal of each facet three times. For a three.js that keeps the
  positions, \<open>load\<close> returns these positions; its normals buffer is what
  \<open>computeVertexNormals\<close> makes of the parsed geometry. With at least one facet, and
  doubles that hold the counts exactly, the statistics are the number of facets, three
  times that number of vertices, the corners of the box of componentwise minima and
  maxima, and the differences and half sums of these corners as the double operations
  round them.
\<close>

theorem load_round_trip:
  assumes h: "length header = 80"
    and wf: "\<forall>f \<in> set facets. wellFormedFacet f"
    and n: "length facets < 2 ^ 32"
    and c: "three_contract pf"
  shows "parseBinary pf (encodeSTL header facets) =
           Inr \<lparr>positions = facetPositions pf facets, normals = facetNormals pf facets,
                boundingBox = None\<rparr> \<and>
         (\<exists>g. load pf (encodeSTL header facets) = Inr g \<and>
              positions g = facetPositions pf facets \<and>
              normals g = normals (computeVertexNormals pf
                 \<lparr>positions = facetPositions pf facets, normals = facetNormals pf facets,
                  boundingBox = None\<rparr>) \<and>
              (facets \<noteq> [] \<and> exact_on_counts rnd \<longrightarrow>
               getStats rnd (Some g) = Inr (Some
                \<lparr>triangleCount = real (length facets),
                 vertexCount = 3 * real (length facets),
                 dimensions =
                   \<lparr>vx = fsub rnd (vx (box_max (boundsOf (facetPositions pf facets))))
                                  (vx (box_min (boundsOf (facetPositions pf facets)))),
                    vy = fsub rnd (vy (box_max (boundsOf (facetPositions pf facets))))
                                  (vy (box_min (boundsOf (facetPositions pf facets)))),
                    vz = fsub rnd (vz (box_max (boundsOf (facetPositions pf facets))))
                                  (vz (box_min (boundsOf (facetPositions pf facets))))\<rparr>,
                 center =
                   \<lparr>vx = fdiv rnd
                           (fadd rnd (vx (box_max (boundsOf (facetPositions pf facets))))
                                     (vx (box_min (boundsOf (facetPositions pf facets))))) 2,
                    vy = fdiv rnd
                           (fadd rnd (vy (box_max (boundsOf (facetPositions pf facets))))
                                     (vy (box_min (boundsOf (facetPositions pf facets))))) 2,
                    vz = fdiv rnd
                           (fadd rnd (vz (box_max (boundsOf (facetPositions pf facets))))
                                     (vz (box_min (boundsOf (facetPositions pf facets))))) 2\<rparr>,
                 stats_min = box_min (boundsOf (facetPositions pf facets)),
                 stats_max = box_max (boundsOf (facetPositions pf facets))\<rparr>)))"
proof -
  let ?g0 = "\<lparr>positions = facetPositions pf facets, normals = facetNormals pf facets,
              boundingBox = None\<rparr>"
  have pb: "parseBinary pf (encodeSTL header facets) = Inr ?g0"
    unfolding facetPositions_def facetNormals_def by (rule load_encodeSTL(1) [OF h wf n])
  have ld: "load pf (encodeSTL header facets) = Inr (postLoad pf ?g0)"
    unfolding facetPositions_def facetNormals_def by (rule load_encodeSTL(2) [OF h wf n])
  have len: "length (facetPositions pf facets) = 9 * length facets"
    unfolding facetPositions_def by (rule length_vertex_floats [OF wf])
  have p: "positions (postLoad pf ?g0) = facetPositions pf facets"
    using postLoad_contract(1) [OF c, of ?g0] by simp
  have nm: "normals (postLoad pf ?g0) = normals (computeVertexNormals pf ?g0)"
    by (rule postLoad_contract(2) [OF c])
  have st: "getStats rnd (Some (postLoad pf ?g0)) = Inr (Some
                \<lparr>triangleCount = real (length facets),
                 vertexCount = 3 * real (length facets),
                 dimensions =
                   \<lparr>vx = fsub rnd (vx (box_max (boundsOf (facetPositions pf facets))))
                                  (vx (box_min (boundsOf (facetPositions pf facets)))),
                    vy = fsub rnd (vy (box_max (boundsOf (facetPositions pf facets))))
                                  (vy (box_min (boundsOf (facetPositions pf facets)))),
                    vz = fsub rnd (vz (box_max (boundsOf (facetPositions pf facets))))
                                  (vz (box_min (boundsOf (facetPositions pf facets))))\<rparr>,
                 center =
                   \<lparr>vx = fdiv rnd
                           (fadd rnd (vx (box_max (boundsOf (facetPositions pf facets))))
                                     (vx (box_min (boundsOf (facetPositions pf facets))))) 2,
                    vy = fdiv rnd
                           (fadd rnd (vy (box_max (boundsOf (facetPositions pf facets))))
                                     (vy (box_min (boundsOf (facetPositions pf facets))))) 2,
                    vz = fdiv rnd
                           (fadd rnd (vz (box_max (boundsOf (facetPositions pf facets))))
                                     (vz (box_min (boundsOf (facetPositions pf facets))))) 2\<rparr>,
                 stats_min = box_min (boundsOf (facetPositions pf facets)),
                 stats_max = box_max (boundsOf (facetPositions pf facets))\<rparr>)"
    if ne: "facets \<noteq> []" and ex: "exact_on_counts rnd"
  proof -
    from ne len have nonempty: "positions ?g0 \<noteq> []" by auto
    have bb: "boundingBox (postLoad pf ?g0) = Some (boundsOf (facetPositions pf facets))"
      using postLoad_contract(3) [OF c nonempty] by simp
    from n have "3 * length facets < 2 ^ 53" "length facets < 2 ^ 53" by simp_all
    with ex have r3: "rnd (real (3 * length facets)) = real (3 * length facets)"
      and r1: "rnd (real (length facets)) = real (length facets)"
      unfolding exact_on_counts_def by blast+
    have vc: "attributeCount rnd (facetPositions pf facets) = 3 * real (length facets)"
      using r3 by (simp add: attributeCount_def fdiv_def len)
    have tc: "fdiv rnd (3 * real (length facets)) 3 = real (length facets)"
      using r1 by (simp add: fdiv_def)
    show ?thesis by (simp add: getStats_def bb p vc tc)
  qed
  from pb ld p nm st show ?thesis by blast
qed

text \<open>
  C8, witness: one facet with the normal \<open>(0, 0, 0)\<close> and the vertices \<open>(0, 0, 0)\<close>,
  \<open>(1, 0, 0)\<close>, \<open>(0, 1, 0)\<close>, parsed back by \<open>parseBinary\<close>, and the statistics of the
  loaded geometry.
\<close>

theorem load_round_trip_witness:
  "length exampleHeader = 80 \<and> three_contract examplePlatform \<and>
   exact_on_counts noRounding \<and>
   parseBinary examplePlatform (encodeSTL exampleHeader [exampleFacet]) =
     Inr \<lparr>positions = [0, 0, 0, 1, 0, 0, 0, 1, 0], normals = [0, 0, 0, 0, 0, 0, 0, 0, 0],
          boundingBox = None\<rparr> \<and>
   getStats noRounding
     (Some \<lparr>positions = [0 :: real, 0, 0, 1, 0, 0, 0, 1, 0],
            normals = [0, 0, 1, 0, 0, 1, 0, 0, 1],
            boundingBox = Some \<lparr>box_min = \<lparr>vx = 0, vy = 0, vz = 0\<rparr>,
                                 box_max = \<lparr>vx = 1, vy = 1, vz = 0\<rparr>\<rparr>\<rparr>) =
     Inr (Some \<lparr>triangleCount = 1, vertexCount = 3,
                dimensions = \<lparr>vx = 1, vy = 1, vz = 0\<rparr>,
                center = \<lparr>vx = 1 / 2, vy = 1 / 2, vz = 0\<rparr>,
                stats_min = \<lparr>vx = 0, vy = 0, vz = 0\<rparr>,
                stats_max = \<lparr>vx = 1, vy = 1, vz = 0\<rparr>\<rparr>)"
proof -
  have n: "length [exampleFacet] < 2 ^ 32" by simp
  have e: "exact_on_counts noRounding" by (simp add: exact_on_counts_def noRounding_def)
  have v: "normals (computeVertexNormals examplePlatform
             \<lparr>positions = [0, 0, 0, 1, 0, 0, 0, 1, 0], normals = ns, boundingBox = bb\<rparr>) =
           [0, 0, 1, 0, 0, 1, 0, 0, 1]" for ns bb
    by (simp add: examplePlatform_def threeVertexNormals_def faceNormals_example)
  from load_round_trip [OF exampleHeader_length exampleFacet_wf n examplePlatform_contract,
      of noRounding]
  have "parseBinary examplePlatform (encodeSTL exampleHeader [exampleFacet]) =
          Inr \<lparr>positions = [0, 0, 0, 1, 0, 0, 0, 1, 0],
               normals = [0, 0, 0, 0, 0, 0, 0, 0, 0], boundingBox = None\<rparr>"
    and "getStats noRounding
     (Some \<lparr>positions = [0 :: real, 0, 0, 1, 0, 0, 0, 1, 0],
            normals = [0, 0, 1, 0, 0, 1, 0, 0, 1],
            boundingBox = Some \<lparr>box_min = \<lparr>vx = 0, vy = 0, vz = 0\<rparr>,
                                 box_max = \<lparr>vx = 1, vy = 1, vz = 0\<rparr>\<rparr>\<rparr>) =
     Inr (Some \<lparr>triangleCount = 1, vertexCount = 3,
                dimensions = \<lparr>vx = 1, vy = 1, vz = 0\<rparr>,
                center = \<lparr>vx = 1 / 2, vy = 1 / 2, vz = 0\<rparr>,
                stats_min = \<lparr>vx = 0, vy = 0, vz = 0\<rparr>,
                stats_max = \<lparr>vx = 1, vy = 1, vz = 0\<rparr>\<rparr>)"
    unfolding example_load
    by (simp_all add: example_facet_values e v boundsOf_example fadd_def fsub_def fdiv_def
        noRounding_def)
  with exampleHeader_length examplePlatform_contract e show ?thesis by simp
qed

text \<open>
  C8, counterexample: with three.js computing the normals anew, \<open>load\<close> of that stream
  returns the normal \<open>(0, 0, 1)\<close> at each vertex, not the \<open>(0, 0, 0)\<close> of the file.
\<close>

theorem load_round_trip_counterexample:
  "load examplePlatform (encodeSTL exampleHeader [exampleFacet]) =
     Inr \<lparr>positions = [0, 0, 0, 1, 0, 0, 0, 1, 0], normals = [0, 0, 1, 0, 0, 1, 0, 0, 1],
          boundingBox = Some \<lparr>box_min = \<lparr>vx = 0, vy = 0, vz = 0\<rparr>,
                               box_max = \<lparr>vx = 1, vy = 1, vz = 0\<rparr>\<rparr>\<rparr> \<and>
   facetNormals examplePlatform [exampleFacet] = [0, 0, 0, 0, 0, 0, 0, 0, 0]"
  by (simp add: example_load example_facet_values)

section \<open>The claim about the exporter\<close>



end
